theory Spec2Isabelle
  imports Complex_Main "HOL-Library.Log_Nat" "HOL-Library.Sublist"
begin

section \<open>Python values used by \<open>file_info.py\<close>\<close>

text \<open>
  The exceptions the program can meet. \<open>OSError\<close> carries the text that \<open>str(e)\<close>
  yields; the other exceptions are not subclasses of \<open>OSError\<close>, so no handler of the
  program catches them.
\<close>

datatype exn = OSError string | TypeError | IndexError | KeyError | UnicodeDecodeError | ImportError

text \<open>
  \<open>str(n)\<close> for an integer, in decimal: \<open>str_digits\<close> writes a number that is not
  negative, \<open>str_int\<close> puts the sign before it.
\<close>

definition digit_char :: "int \<Rightarrow> char" where
  "digit_char d = ''0123456789'' ! nat d"

function str_digits :: "int \<Rightarrow> string" where
  "str_digits n = (if n < 10 then [digit_char n] else str_digits (n div 10) @ [digit_char (n mod 10)])"
  by pat_completeness auto
termination
  by (relation "measure nat") auto

declare str_digits.simps [simp del]

definition str_int :: "int \<Rightarrow> string" where
  "str_int i = (if i < 0 then CHR ''-'' # str_digits (- i) else str_digits i)"

text \<open>\<open>xs[i]\<close>: a negative index counts from the end, an index outside the list raises.\<close>

definition py_index :: "'a list \<Rightarrow> int \<Rightarrow> exn + 'a" where
  "py_index xs i =
     (if 0 \<le> i \<and> i < int (length xs) then Inr (xs ! nat i)
      else if i < 0 \<and> - int (length xs) \<le> i then Inr (xs ! nat (int (length xs) + i))
      else Inl IndexError)"

text \<open>\<open>int(x)\<close> of a float truncates towards zero.\<close>

definition py_trunc :: "real \<Rightarrow> int" where
  "py_trunc x = (if 0 \<le> x then \<lfloor>x\<rfloor> else \<lceil>x\<rceil>)"

subsection \<open>Floating point\<close>

text \<open>
  \<open>a / b\<close> on two Python integers is the quotient correctly rounded to binary64 (53
  significant bits, ties to even). \<open>float_div\<close> is that rounding for a positive
  quotient within the range of normal doubles; the result is kept as the exact rational
  the double denotes. \<open>binary_exponent q\<close> is the floor of the binary logarithm of
  \<open>q\<close>. \<open>format_1f\<close> is the format specification \<open>.1f\<close> on a non-negative double: the
  exact value rounded to tenths, ties to even.
\<close>

definition round_half_even :: "rat \<Rightarrow> int" where
  "round_half_even x =
     (let f = \<lfloor>x\<rfloor>; r = x - of_int f
      in if r < 1 / 2 then f else if 1 / 2 < r then f + 1 else if even f then f else f + 1)"

function floor_log :: "int \<Rightarrow> int \<Rightarrow> int" where
  "floor_log base n = (if 1 < base \<and> base \<le> n then 1 + floor_log base (n div base) else 0)"
  by pat_completeness auto
termination
  by (relation "measure (\<lambda>(b, n). nat n)") (auto simp: int_div_less_self)

declare floor_log.simps [simp del]

definition binary_exponent :: "rat \<Rightarrow> int" where
  "binary_exponent q =
     (if 1 \<le> q then floor_log 2 \<lfloor>q\<rfloor> else - (floor_log 2 (\<lceil>1 / q\<rceil> - 1) + 1))"

definition float_div :: "int \<Rightarrow> int \<Rightarrow> rat" where
  "float_div a b =
     (let q = of_int a / of_int b;
          e = binary_exponent q - 52
      in if 0 \<le> e then of_int (round_half_even (q / 2 ^ nat e)) * 2 ^ nat e
         else of_int (round_half_even (q * 2 ^ nat (- e))) / 2 ^ nat (- e))"

definition format_1f :: "rat \<Rightarrow> string" where
  "format_1f x =
     (let t = round_half_even (x * 10)
      in str_int (t div 10) @ ''.'' @ str_int (t mod 10))"

section \<open>Size Formatter: \<open>calculate_size\<close>\<close>

definition UNITS_1000 :: "string list" where
  "UNITS_1000 = [''B'', ''KB'', ''MB'', ''GB'', ''TB'', ''PB'', ''EB'']"

definition UNITS_1024 :: "string list" where
  "UNITS_1024 = [''B'', ''KiB'', ''MiB'', ''GiB'', ''TiB'', ''PiB'', ''EiB'']"

text \<open>
  The function is written for a machine given by its \<open>math.log2\<close> on integers, \<open>lg\<close>,
  and its division of doubles, \<open>fdiv\<close>: \<open>i = int(log2(size) / log2(base))\<close>. The values
  of \<open>math.log2\<close> are those of the C library, which is not correctly rounded, so the
  index it yields next to a power of the base is not determined by the source alone.
\<close>

definition unit_index_fp :: "(int \<Rightarrow> real) \<Rightarrow> (real \<Rightarrow> real \<Rightarrow> real) \<Rightarrow> int \<Rightarrow> int \<Rightarrow> int" where
  "unit_index_fp lg fdiv sz base = py_trunc (fdiv (lg sz) (lg base))"

definition base_of :: "string list \<Rightarrow> int" where
  "base_of units = (if units = UNITS_1000 then 1000 else 1024)"

definition calculate_size_fp ::
  "(int \<Rightarrow> real) \<Rightarrow> (real \<Rightarrow> real \<Rightarrow> real) \<Rightarrow> int \<Rightarrow> string list \<Rightarrow> exn + string" where
  "calculate_size_fp lg fdiv sz units =
     (if sz \<le> 0 then Inr ''0 B''
      else
        let base = base_of units;
            i = unit_index_fp lg fdiv sz base;
            v = float_div sz (base ^ nat i)
        in case py_index units i of
             Inl e \<Rightarrow> Inl e
           | Inr u \<Rightarrow> Inr (format_1f v @ '' '' @ u))"

text \<open>
  What is asked of a machine: \<open>math.log2\<close> is accurate to a relative error of
  \<open>2 ^ -40\<close> on every positive integer, and so is the division where the program uses
  it, on a dividend that is 0 or at least one half and a divisor between 1 and 1024.
  IEEE division is, being correctly rounded to 53 bits with no underflow or overflow in
  that range, and so is the logarithm of any C library in use.
\<close>

definition machine_eps :: real where
  "machine_eps = 1 / 2 ^ 40"

definition log2_accurate :: "(int \<Rightarrow> real) \<Rightarrow> bool" where
  "log2_accurate lg =
     (\<forall>n. 0 < n \<longrightarrow> \<bar>lg n - log 2 (of_int n)\<bar> \<le> machine_eps * \<bar>log 2 (of_int n)\<bar>)"

definition division_rounded :: "(real \<Rightarrow> real \<Rightarrow> real) \<Rightarrow> bool" where
  "division_rounded fdiv =
     (\<forall>x y. (x = 0 \<or> 1 / 2 \<le> x) \<and> 1 \<le> y \<and> y \<le> 1024 \<longrightarrow>
        \<bar>fdiv x y - x / y\<bar> \<le> machine_eps * (x / y))"

text \<open>
  The machine on which the renderers below are evaluated takes the logarithms and their
  quotient exactly: \<open>unit_index\<close> and \<open>calculate_size\<close> are the function on that
  machine. On every accurate machine the result is the same unless the size is next to a
  power of the base (lemma \<open>accurate_machine_agrees\<close>).
\<close>

definition exact_log2 :: "int \<Rightarrow> real" where
  "exact_log2 n = log 2 (of_int n)"

definition unit_index :: "int \<Rightarrow> int \<Rightarrow> int" where
  "unit_index sz base = unit_index_fp exact_log2 (/) sz base"

definition calculate_size :: "int \<Rightarrow> string list \<Rightarrow> exn + string" where
  "calculate_size sz units = calculate_size_fp exact_log2 (/) sz units"

section \<open>The file system seen by the program\<close>

text \<open>
  What \<open>os.stat\<close> returns, with the fields the program reads. Times are whole
  seconds since the epoch.
\<close>

record stat_result =
  st_mode :: int
  st_ino :: int
  st_uid :: int
  st_gid :: int
  st_size :: int
  st_mtime :: int
  st_ctime :: int

text \<open>
  The outcome of \<open>open(filename, 'r')\<close> followed by reading every line: the number of
  lines, an \<open>OSError\<close> with its text, or a \<open>UnicodeDecodeError\<close> on bytes that are
  not text.
\<close>

datatype read_result = Lines int | OpenFails string | DecodeFails

text \<open>
  A path denotes a node. The file system is taken to be unchanged during a run, so a
  directory holds the nodes of its entries, and the node of an entry stands for every
  later look-up of that entry's path. An entry's type is known from the listing, as
  with \<open>d_type\<close> on Linux.
  \<^item> \<open>Missing e\<close>: the path cannot be resolved; every system call on it raises
    \<open>OSError\<close> with text \<open>e\<close>.
  \<^item> \<open>Reg st r\<close>: a regular file; \<open>st\<close> is its stat record, or the error text when it
    cannot be stat'ed (it vanished after being listed, or a permission is missing).
  \<^item> \<open>Special st r\<close>: a FIFO, socket or device.
  \<^item> \<open>Dir st es\<close>: a directory with its entries in listing order.
  \<^item> \<open>DirDenied st e hidden\<close>: a directory that cannot be opened for listing; \<open>hidden\<close>
    are the entries it holds all the same, which no listing shows.
  \<^item> \<open>Symlink target n\<close>: a symbolic link with the text \<open>os.readlink\<close> returns and
    the node it points to (\<open>Missing\<close> for a dangling link).
\<close>

datatype node =
    Missing string
  | Reg "string + stat_result" read_result
  | Special stat_result read_result
  | Dir stat_result "(string \<times> node) list"
  | DirDenied stat_result string "(string \<times> node) list"
  | Symlink string node

type_synonym entry = "string \<times> node"

subsection \<open>The \<open>os\<close> and \<open>os.path\<close> calls\<close>

text \<open>A failing call returns \<open>Inl\<close> of the text of the \<open>OSError\<close> it raises.\<close>

fun os_stat :: "node \<Rightarrow> string + stat_result" where
  "os_stat (Missing e) = Inl e"
| "os_stat (Reg st r) = st"
| "os_stat (Special st r) = Inr st"
| "os_stat (Dir st es) = Inr st"
| "os_stat (DirDenied st e hidden) = Inr st"
| "os_stat (Symlink target n) = os_stat n"

fun resolve :: "node \<Rightarrow> node" where
  "resolve (Symlink target n) = resolve n"
| "resolve n = n"

definition os_path_exists :: "node \<Rightarrow> bool" where
  "os_path_exists n = (case os_stat n of Inl e \<Rightarrow> False | Inr st \<Rightarrow> True)"

definition os_path_islink :: "node \<Rightarrow> bool" where
  "os_path_islink n = (case n of Symlink target m \<Rightarrow> True | _ \<Rightarrow> False)"

definition os_path_isdir :: "node \<Rightarrow> bool" where
  "os_path_isdir n = (case resolve n of Dir st es \<Rightarrow> True | DirDenied st e hidden \<Rightarrow> True | _ \<Rightarrow> False)"

definition os_path_isfile :: "node \<Rightarrow> bool" where
  "os_path_isfile n = (case resolve n of Reg (Inr st) r \<Rightarrow> True | _ \<Rightarrow> False)"

definition os_path_getsize :: "node \<Rightarrow> string + int" where
  "os_path_getsize n = (case os_stat n of Inl e \<Rightarrow> Inl e | Inr st \<Rightarrow> Inr (st_size st))"

definition os_readlink :: "node \<Rightarrow> string + string" where
  "os_readlink n =
     (case n of Symlink target m \<Rightarrow> Inr target
      | Missing e \<Rightarrow> Inl e
      | _ \<Rightarrow> Inl ''[Errno 22] Invalid argument'')"

definition open_and_count :: "node \<Rightarrow> read_result" where
  "open_and_count n =
     (case resolve n of Reg st r \<Rightarrow> r
      | Special st r \<Rightarrow> r
      | Missing e \<Rightarrow> OpenFails e
      | _ \<Rightarrow> OpenFails ''[Errno 21] Is a directory'')"

text \<open>The tests of a \<open>DirEntry\<close>; \<open>is_dir\<close> and \<open>is_file\<close> follow symbolic links.\<close>

definition is_symlink :: "node \<Rightarrow> bool" where
  "is_symlink n = os_path_islink n"

definition is_dir :: "node \<Rightarrow> bool" where
  "is_dir n = os_path_isdir n"

definition is_file :: "node \<Rightarrow> bool" where
  "is_file n = (case n of Reg st r \<Rightarrow> True | Symlink target m \<Rightarrow> os_path_isfile m | _ \<Rightarrow> False)"

text \<open>\<open>os.path.join\<close> and \<open>os.path.basename\<close> of \<open>posixpath\<close>.\<close>

definition os_path_join :: "string \<Rightarrow> string \<Rightarrow> string" where
  "os_path_join a b =
     (if b \<noteq> [] \<and> hd b = CHR ''/'' then b
      else if a = [] \<or> last a = CHR ''/'' then a @ b
      else a @ ''/'' @ b)"

definition os_path_basename :: "string \<Rightarrow> string" where
  "os_path_basename p = rev (takeWhile (\<lambda>c. c \<noteq> CHR ''/'') (rev p))"

text \<open>
  \<open>os.walk(dirpath)\<close> with its defaults (top down, \<open>onerror=None\<close>,
  \<open>followlinks=False\<close>): one triple per directory visited, of the directory's path, its
  entries for which \<open>is_dir()\<close> holds and its other entries. A directory that cannot be
  listed yields nothing and its error is dropped. \<open>dirpath\<close> itself is listed through a
  symbolic link; below it a symbolic link to a directory is named among the directories
  and not visited.
\<close>

type_synonym walk_item = "string \<times> entry list \<times> entry list"

fun os_walk :: "string \<Rightarrow> node \<Rightarrow> walk_item list"
  and walk_subdirs :: "string \<Rightarrow> entry list \<Rightarrow> walk_item list" where
  "os_walk dirpath (Dir st es) =
     (dirpath, filter (\<lambda>e. is_dir (snd e)) es, filter (\<lambda>e. \<not> is_dir (snd e)) es) # walk_subdirs dirpath es"
| "os_walk dirpath (Symlink target n) = os_walk dirpath n"
| "os_walk dirpath (Missing e) = []"
| "os_walk dirpath (Reg st r) = []"
| "os_walk dirpath (Special st r) = []"
| "os_walk dirpath (DirDenied st e hidden) = []"
| "walk_subdirs dirpath [] = []"
| "walk_subdirs dirpath (e # es) =
     (if is_dir (snd e) \<and> \<not> os_path_islink (snd e)
      then os_walk (os_path_join dirpath (fst e)) (snd e) else [])
     @ walk_subdirs dirpath es"

section \<open>Output and exceptions\<close>

text \<open>
  What the program writes to standard output: a line of \<open>print\<close>, or the table that
  long mode hands to \<open>tabulate.tabulate\<close> (headers and rows; its layout is the
  library's).
\<close>

datatype cell = CNone | CStr string | CInt int

datatype printed = Line string | Table "string list" "cell list list"

text \<open>
  Every \<open>print\<close> of the program is called without a \<open>file\<close> argument: all that a run
  prints goes to \<open>sys.stdout\<close>, its reports of errors with the lines and tables it
  renders, and nothing goes to \<open>sys.stderr\<close>.
\<close>

datatype stream = Stdout | Stderr

fun stream_of :: "printed \<Rightarrow> stream" where
  "stream_of (Line line) = Stdout"
| "stream_of (Table hs rows) = Stdout"

definition on_stream :: "stream \<Rightarrow> printed list \<Rightarrow> printed list" where
  "on_stream s out = filter (\<lambda>p. stream_of p = s) out"

text \<open>
  A computation that prints and then returns a value or raises: the output so far and
  \<open>Inl\<close> of the exception or \<open>Inr\<close> of the value.
\<close>

type_synonym 'a io = "printed list \<times> (exn + 'a)"

definition io_ret :: "'a \<Rightarrow> 'a io" where
  "io_ret x = ([], Inr x)"

definition io_raise :: "exn \<Rightarrow> 'a io" where
  "io_raise e = ([], Inl e)"

definition py_print :: "string \<Rightarrow> unit io" where
  "py_print line = ([Line line], Inr ())"

definition io_bind :: "'a io \<Rightarrow> ('a \<Rightarrow> 'b io) \<Rightarrow> 'b io" where
  "io_bind m f =
     (case snd m of
        Inl e \<Rightarrow> (fst m, Inl e)
      | Inr x \<Rightarrow> (fst m @ fst (f x), snd (f x)))"

text \<open>\<open>try: m except OSError as e: h(e)\<close>: any other exception passes through.\<close>

definition except_OSError :: "'a io \<Rightarrow> (string \<Rightarrow> 'a io) \<Rightarrow> 'a io" where
  "except_OSError m h =
     (case snd m of
        Inl (OSError e) \<Rightarrow> (fst m @ fst (h e), snd (h e))
      | _ \<Rightarrow> m)"

definition os_call :: "string + 'a \<Rightarrow> 'a io" where
  "os_call r = (case r of Inl e \<Rightarrow> io_raise (OSError e) | Inr x \<Rightarrow> io_ret x)"

section \<open>Size Accumulator: \<open>get_size\<close> and \<open>stat_size\<close>\<close>

text \<open>
  The inner loop \<open>for f in filenames\<close> of \<open>get_size\<close>, on the output and the total so
  far; the node of an entry stands for \<open>os.path.join(dirpath, f)\<close>.
\<close>

fun add_sizes :: "entry list \<Rightarrow> printed list \<times> int \<Rightarrow> printed list \<times> int" where
  "add_sizes [] acc = acc"
| "add_sizes (f # filenames) acc =
     add_sizes filenames
       (case os_path_getsize (snd f) of
          Inr n \<Rightarrow> (fst acc, snd acc + n)
        | Inl e \<Rightarrow> (fst acc @ [Line (''Error: '' @ e)], snd acc))"

definition get_size :: "string \<Rightarrow> node \<Rightarrow> int io" where
  "get_size path n =
     (if os_path_isfile n then io_bind (os_call (os_stat n)) (\<lambda>st. io_ret (st_size st))
      else
        let acc = fold (\<lambda>item acc. add_sizes (snd (snd item)) acc) (os_walk path n) ([], 0)
        in (fst acc, Inr (snd acc)))"

definition default_multiplier :: int where
  "default_multiplier = 1000"

definition stat_size :: "string \<Rightarrow> node \<Rightarrow> int \<Rightarrow> string option io" where
  "stat_size path n multiplier =
     (if \<not> os_path_exists n then io_bind (py_print ''Error: Path does not exist.'') (\<lambda>u. io_ret None)
      else
        io_bind (get_size path n) (\<lambda>sz.
          let units = (if multiplier = 1000 then UNITS_1000 else UNITS_1024)
          in io_bind ([], calculate_size sz units) (\<lambda>formatted. io_ret (Some formatted))))"

section \<open>Entry Counter: \<open>FileCount\<close> and \<open>count_file\<close>\<close>

record FileCount =
  dirs :: int
  files :: int
  links :: int

definition FileCount_init :: FileCount where
  "FileCount_init = \<lparr>dirs = 0, files = 0, links = 0\<rparr>"

definition cannot_open :: "string \<Rightarrow> string \<Rightarrow> printed" where
  "cannot_open path e = Line (''Cannot open directory: '' @ path @ ''. Error: '' @ e)"

text \<open>
  \<open>count_file\<close> lists \<open>path\<close> with \<open>os.scandir\<close> (through a symbolic link, when
  \<open>path\<close> is one) and \<open>count_entries\<close> is its loop over the entries. The handler of
  \<open>count_file\<close> catches the \<open>OSError\<close> of \<open>os.scandir\<close>; a recursive call handles its
  own, so none reaches the loop of the caller.
\<close>

fun count_file :: "string \<Rightarrow> node \<Rightarrow> FileCount \<Rightarrow> printed list \<times> FileCount"
  and count_entries :: "string \<Rightarrow> entry list \<Rightarrow> FileCount \<Rightarrow> printed list \<times> FileCount" where
  "count_file path (Dir st es) counts = count_entries path es counts"
| "count_file path (Symlink target n) counts = count_file path n counts"
| "count_file path (DirDenied st e hidden) counts = ([cannot_open path e], counts)"
| "count_file path (Missing e) counts = ([cannot_open path e], counts)"
| "count_file path (Reg st r) counts = ([cannot_open path ''[Errno 20] Not a directory''], counts)"
| "count_file path (Special st r) counts = ([cannot_open path ''[Errno 20] Not a directory''], counts)"
| "count_entries path [] counts = ([], counts)"
| "count_entries path (entry # es) counts =
     (if is_symlink (snd entry) then
        count_entries path es (counts\<lparr>links := links counts + 1\<rparr>)
      else if is_dir (snd entry) then
        let sub = count_file (os_path_join path (fst entry)) (snd entry)
                    (counts\<lparr>dirs := dirs counts + 1\<rparr>);
            rest = count_entries path es (snd sub)
        in (fst sub @ fst rest, snd rest)
      else if is_file (snd entry) then
        count_entries path es (counts\<lparr>files := files counts + 1\<rparr>)
      else count_entries path es counts)"

section \<open>\<open>line_count\<close>\<close>

definition line_count :: "string \<Rightarrow> node \<Rightarrow> int option io" where
  "line_count filename n =
     (case open_and_count n of
        Lines k \<Rightarrow> io_ret (Some k)
      | OpenFails e \<Rightarrow>
          io_bind (py_print (''Could not open file '' @ filename @ ''. Error: '' @ e)) (\<lambda>u. io_ret None)
      | DecodeFails \<Rightarrow> io_raise UnicodeDecodeError)"

section \<open>Metadata Reader: \<open>print_mod_time\<close> and \<open>print_permissions\<close>\<close>

text \<open>
  The surroundings of a run: the file system as a map from the paths given on the
  command line to nodes, the offset of local time from UTC in seconds at a given
  instant, \<open>platform.system()\<close>, the user and group databases behind
  \<open>pwd.getpwuid\<close> and \<open>grp.getgrgid\<close>, and the user name and domain that \<open>wmi\<close>
  reports (\<open>None\<close> when the module cannot be imported).
\<close>

record passwd =
  pw_name :: string
  pw_uid :: int
  pw_gid :: int

record env =
  env_fs :: "string \<Rightarrow> node"
  env_utcoffset :: "int \<Rightarrow> int"
  env_system :: string
  env_passwd :: "int \<Rightarrow> passwd option"
  env_group :: "int \<Rightarrow> string option"
  env_wmi :: "(string \<times> string) option"

record struct_time =
  tm_year :: int
  tm_mon :: int
  tm_mday :: int
  tm_hour :: int
  tm_min :: int
  tm_sec :: int
  tm_wday :: int

text \<open>The proleptic Gregorian date (year, month, day) of a day number, day 0 being 1970-01-01.\<close>

definition civil_from_days :: "int \<Rightarrow> int \<times> int \<times> int" where
  "civil_from_days days =
     (let z = days + 719468;
          era = z div 146097;
          doe = z mod 146097;
          yoe = (doe - doe div 1460 + doe div 36524 - doe div 146096) div 365;
          doy = doe - (365 * yoe + yoe div 4 - yoe div 100);
          mp = (5 * doy + 2) div 153;
          d = doy - (153 * mp + 2) div 5 + 1;
          m = (if mp < 10 then mp + 3 else mp - 9);
          y = yoe + era * 400
      in (if m \<le> 2 then y + 1 else y, m, d))"

definition time_localtime :: "env \<Rightarrow> int \<Rightarrow> struct_time" where
  "time_localtime env t =
     (let loc = t + env_utcoffset env t;
          days = loc div 86400;
          secs = loc mod 86400;
          ymd = civil_from_days days
      in \<lparr>tm_year = fst ymd, tm_mon = fst (snd ymd), tm_mday = snd (snd ymd),
          tm_hour = secs div 3600, tm_min = secs mod 3600 div 60, tm_sec = secs mod 60,
          tm_wday = (days + 3) mod 7\<rparr>)"

definition ljust :: "nat \<Rightarrow> string \<Rightarrow> string" where
  "ljust w x = x @ replicate (w - length x) CHR '' ''"

definition rjust :: "nat \<Rightarrow> string \<Rightarrow> string" where
  "rjust w x = replicate (w - length x) CHR '' '' @ x"

definition pad2 :: "int \<Rightarrow> string" where
  "pad2 n = (if 0 \<le> n \<and> n < 10 then CHR ''0'' # str_int n else str_int n)"

text \<open>\<open>time.strftime("%d %m-%Y %H:%M", tm)\<close>.\<close>

definition strftime_dmYHM :: "struct_time \<Rightarrow> string" where
  "strftime_dmYHM tm =
     pad2 (tm_mday tm) @ '' '' @ pad2 (tm_mon tm) @ ''-'' @ str_int (tm_year tm) @ '' ''
     @ pad2 (tm_hour tm) @ '':'' @ pad2 (tm_min tm)"

text \<open>\<open>time.ctime(t)\<close>, as in \<open>Thu Jan  1 00:00:00 1970\<close>.\<close>

definition time_ctime :: "env \<Rightarrow> int \<Rightarrow> string" where
  "time_ctime env t =
     (let tm = time_localtime env t
      in [''Mon'', ''Tue'', ''Wed'', ''Thu'', ''Fri'', ''Sat'', ''Sun''] ! nat (tm_wday tm) @ '' ''
         @ [''Jan'', ''Feb'', ''Mar'', ''Apr'', ''May'', ''Jun'',
            ''Jul'', ''Aug'', ''Sep'', ''Oct'', ''Nov'', ''Dec''] ! nat (tm_mon tm - 1)
         @ rjust 3 (str_int (tm_mday tm)) @ '' ''
         @ pad2 (tm_hour tm) @ '':'' @ pad2 (tm_min tm) @ '':'' @ pad2 (tm_sec tm) @ '' ''
         @ str_int (tm_year tm))"

definition print_mod_time :: "env \<Rightarrow> stat_result \<Rightarrow> string" where
  "print_mod_time env stats = strftime_dmYHM (time_localtime env (st_ctime stats))"

text \<open>\<open>stat.filemode(mode)\<close>: the file type and the nine permission bits, as \<open>ls -l\<close> shows them.\<close>

definition mode_bit :: "int \<Rightarrow> nat \<Rightarrow> bool" where
  "mode_bit mode k = (mode div 2 ^ k mod 2 = 1)"

definition filetype_char :: "int \<Rightarrow> char" where
  "filetype_char mode =
     (let fmt = mode div 4096 mod 16
      in if fmt = 10 then CHR ''l'' else if fmt = 12 then CHR ''s''
         else if fmt = 8 then CHR ''-'' else if fmt = 6 then CHR ''b''
         else if fmt = 4 then CHR ''d'' else if fmt = 2 then CHR ''c''
         else if fmt = 1 then CHR ''p'' else CHR ''?'')"

definition exec_char :: "bool \<Rightarrow> bool \<Rightarrow> char \<Rightarrow> char \<Rightarrow> char" where
  "exec_char x special lower upper =
     (if x \<and> special then lower else if special then upper else if x then CHR ''x'' else CHR ''-'')"

definition stat_filemode :: "int \<Rightarrow> string" where
  "stat_filemode mode =
     [filetype_char mode,
      if mode_bit mode 8 then CHR ''r'' else CHR ''-'',
      if mode_bit mode 7 then CHR ''w'' else CHR ''-'',
      exec_char (mode_bit mode 6) (mode_bit mode 11) CHR ''s'' CHR ''S'',
      if mode_bit mode 5 then CHR ''r'' else CHR ''-'',
      if mode_bit mode 4 then CHR ''w'' else CHR ''-'',
      exec_char (mode_bit mode 3) (mode_bit mode 10) CHR ''s'' CHR ''S'',
      if mode_bit mode 2 then CHR ''r'' else CHR ''-'',
      if mode_bit mode 1 then CHR ''w'' else CHR ''-'',
      exec_char (mode_bit mode 0) (mode_bit mode 9) CHR ''t'' CHR ''T'']"

definition print_permissions :: "stat_result \<Rightarrow> string" where
  "print_permissions stats = stat_filemode (st_mode stats)"

section \<open>Report Renderer: \<open>print_color\<close>, \<open>short_mod\<close> and \<open>long_mod\<close>\<close>

definition rstrip_semicolon :: "string \<Rightarrow> string" where
  "rstrip_semicolon x = rev (dropWhile (\<lambda>c. c = CHR '';'') (rev x))"

text \<open>
  What \<open>if code: esc_seq += str(code) + ';'\<close> appends: nothing for \<open>None\<close> and for 0.
\<close>

definition code_part :: "int option \<Rightarrow> string" where
  "code_part code =
     (case code of None \<Rightarrow> [] | Some c \<Rightarrow> if c = 0 then [] else str_int c @ '';'')"

definition print_color :: "string \<Rightarrow> int option \<Rightarrow> int option \<Rightarrow> int option \<Rightarrow> unit io" where
  "print_color line fg bg attr =
     (let esc0 = [CHR 0x1B, CHR ''[''];
          esc1 = esc0 @ code_part attr;
          esc2 = esc1 @ code_part fg;
          esc3 = esc2 @ code_part bg;
          esc_seq = rstrip_semicolon esc3 @ ''m''
      in py_print (esc_seq @ line @ [CHR 0x1B] @ ''[0m''))"

text \<open>
  The format specifications of the f-strings: \<open>{x}\<close> on a value that may be \<open>None\<close>,
  \<open>{x:<6d}\<close> on an integer, and \<open>{x:>23d}\<close>, which raises \<open>TypeError\<close> on \<open>None\<close>.
\<close>

definition str_opt :: "string option \<Rightarrow> string" where
  "str_opt x = (case x of None \<Rightarrow> ''None'' | Some v \<Rightarrow> v)"

definition str_int_opt :: "int option \<Rightarrow> string" where
  "str_int_opt x = (case x of None \<Rightarrow> ''None'' | Some v \<Rightarrow> str_int v)"

definition format_d_left :: "nat \<Rightarrow> int \<Rightarrow> string" where
  "format_d_left w x = ljust w (str_int x)"

definition format_d_right :: "nat \<Rightarrow> int option \<Rightarrow> string io" where
  "format_d_right w x = (case x of None \<Rightarrow> io_raise TypeError | Some v \<Rightarrow> io_ret (rjust w (str_int v)))"

text \<open>
  The part of \<open>short_mod\<close> after \<open>stats\<close> and \<open>size\<close> are known: the \<open>if\<close>/\<open>elif\<close>
  chain on the kind of the path.
\<close>

definition short_render :: "env \<Rightarrow> string \<Rightarrow> node \<Rightarrow> stat_result \<Rightarrow> string option \<Rightarrow> unit io" where
  "short_render env pathname n stats sz =
     (let mod_time = print_mod_time env stats;
          permissions = print_permissions stats;
          basename = os_path_basename pathname
      in if os_path_islink n then
           io_bind (os_call (os_readlink n)) (\<lambda>link_to.
             print_color
               (permissions @ '', '' @ str_opt sz @ '', '' @ mod_time @ [CHR 0x09]
                @ basename @ '' -> '' @ link_to)
               (Some 35) None None)
         else if os_path_isdir n then
           let counted = count_file pathname n FileCount_init;
               counts = snd counted
           in io_bind (fst counted, Inr ()) (\<lambda>u.
             print_color
               (permissions @ '', '' @ str_opt sz
                @ '', F:'' @ format_d_left 6 (files counts)
                @ '', D:'' @ format_d_left 6 (dirs counts)
                @ '', S:'' @ format_d_left 6 (links counts)
                @ '', '' @ mod_time @ [CHR 0x09] @ basename)
               (Some 32) None None)
         else if os_path_isfile n then
           io_bind (line_count pathname n) (\<lambda>lines.
           io_bind (format_d_right 23 lines) (\<lambda>count.
             print_color
               (permissions @ '', '' @ str_opt sz @ '', '' @ count @ '' lines, ''
                @ mod_time @ [CHR 0x09] @ basename)
               (Some 34) None None))
         else io_ret ())"

definition short_mod :: "env \<Rightarrow> string \<Rightarrow> unit io" where
  "short_mod env pathname =
     except_OSError
       (let n = env_fs env pathname in
        io_bind (os_call (os_stat n)) (\<lambda>stats.
        io_bind (stat_size pathname n default_multiplier) (\<lambda>sz.
          short_render env pathname n stats sz)))
       (\<lambda>e. py_print (''Error: '' @ e))"

text \<open>\<open>oct(mode)[-3:]\<close>.\<close>

function oct_digits :: "int \<Rightarrow> string" where
  "oct_digits n = (if n < 8 then [digit_char n] else oct_digits (n div 8) @ [digit_char (n mod 8)])"
  by pat_completeness auto
termination
  by (relation "measure nat") auto

declare oct_digits.simps [simp del]

definition py_oct :: "int \<Rightarrow> string" where
  "py_oct n = (if n < 0 then ''-0o'' @ oct_digits (- n) else ''0o'' @ oct_digits n)"

definition last3 :: "string \<Rightarrow> string" where
  "last3 x = drop (length x - 3) x"

definition headers :: "string list" where
  "headers = [''Name'', ''Counts'', ''Permissions'', ''Usr/Grp'', ''Gid/Uid'', ''Size'',
              ''Modified'', ''Inode'', ''Link'']"

definition opt_cell :: "string option \<Rightarrow> cell" where
  "opt_cell x = (case x of None \<Rightarrow> CNone | Some v \<Rightarrow> CStr v)"

text \<open>
  The \<open>if\<close>/\<open>elif\<close> chain on the kind of the path, which the Windows and the Linux
  branch of \<open>long_mod\<close> share but for the \<open>Gid/Uid\<close> cell: the rows appended to \<open>data\<close>.
\<close>

definition long_rows ::
  "string \<Rightarrow> node \<Rightarrow> stat_result \<Rightarrow> string \<Rightarrow> cell \<Rightarrow> string option \<Rightarrow> string \<Rightarrow> int \<Rightarrow> cell list list io" where
  "long_rows pathname n stats usr_grp gid_uid sz mod_time inode =
     (if os_path_isdir n then
        let counted = count_file pathname n FileCount_init;
            counts = snd counted
        in (fst counted,
            Inr [[CStr pathname,
                  CStr (str_int (files counts) @ '' files, '' @ str_int (dirs counts)
                        @ '' directories, '' @ str_int (links counts) @ '' symlink''),
                  CStr (last3 (py_oct (st_mode stats))), CStr usr_grp, gid_uid, opt_cell sz,
                  CStr mod_time, CInt inode, CNone]])
      else if os_path_isfile n then
        io_bind (line_count pathname n) (\<lambda>lines.
          io_ret [[CStr pathname, CStr (str_int_opt lines @ '' lines''),
                   CStr (last3 (py_oct (st_mode stats))), CStr usr_grp, gid_uid, opt_cell sz,
                   CStr mod_time, CInt inode, CNone]])
      else if os_path_islink n then
        io_bind (os_call (os_readlink n)) (\<lambda>link_to.
          io_ret [[CStr pathname, CNone,
                   CStr (last3 (py_oct (st_mode stats))), CStr usr_grp, gid_uid, opt_cell sz,
                   CStr mod_time, CInt inode, CStr link_to]])
      else io_ret [])"

text \<open>
  The part of \<open>long_mod\<close> after \<open>stats\<close> and \<open>size\<close> are known: the branch on the
  operating system, and the table printed.
\<close>

definition long_render :: "env \<Rightarrow> string \<Rightarrow> node \<Rightarrow> stat_result \<Rightarrow> string option \<Rightarrow> unit io" where
  "long_render env pathname n stats sz =
     (let mod_time = time_ctime env (st_mtime stats);
          inode = st_ino stats
      in io_bind
           (if env_system env = ''Windows'' then
              (case env_wmi env of
                 None \<Rightarrow> io_raise ImportError
               | Some my_system \<Rightarrow>
                   long_rows pathname n stats (fst my_system @ '' / '' @ snd my_system)
                     CNone sz mod_time inode)
            else if env_system env = ''Linux'' then
              (case env_group env (st_gid stats) of
                 None \<Rightarrow> io_raise KeyError
               | Some gr_name \<Rightarrow>
                   (case env_passwd env (st_uid stats) of
                      None \<Rightarrow> io_raise KeyError
                    | Some pw_info \<Rightarrow>
                        long_rows pathname n stats (pw_name pw_info @ '' / '' @ gr_name)
                          (CStr (str_int (pw_gid pw_info) @ '' / '' @ str_int (pw_uid pw_info)))
                          sz mod_time inode))
            else io_ret [])
           (\<lambda>data. ([Table headers data], Inr ())))"

definition long_mod :: "env \<Rightarrow> string \<Rightarrow> unit io" where
  "long_mod env pathname =
     except_OSError
       (let n = env_fs env pathname in
        io_bind (os_call (os_stat n)) (\<lambda>stats.
        io_bind (stat_size pathname n default_multiplier) (\<lambda>sz.
          long_render env pathname n stats sz)))
       (\<lambda>e. py_print (''Error: '' @ e))"

section \<open>CLI Driver: \<open>main\<close>\<close>

text \<open>
  The namespace \<open>parse_args\<close> returns for the parser of \<open>main\<close>, from whether \<open>-s\<close> and
  \<open>-l\<close> occur on the command line and the positional arguments: both flags are
  \<open>store_true\<close>, and \<open>paths\<close> has \<open>nargs='*'\<close> with default \<open>['.']\<close>.
\<close>

record args =
  arg_s :: bool
  arg_l :: bool
  arg_paths :: "string list"

definition parse_args :: "bool \<Rightarrow> bool \<Rightarrow> string list \<Rightarrow> args" where
  "parse_args has_s has_l positional =
     \<lparr>arg_s = has_s, arg_l = has_l,
      arg_paths = (if positional = [] then [''.''] else positional)\<rparr>"

text \<open>The body of the loop of \<open>main\<close> for one path, with its handler.\<close>

definition process_path :: "env \<Rightarrow> args \<Rightarrow> string \<Rightarrow> unit io" where
  "process_path env a path =
     except_OSError
       (if arg_s a then short_mod env path
        else if arg_l a then long_mod env path
        else short_mod env path)
       (\<lambda>e. py_print (''Error: '' @ e))"

text \<open>
  \<open>for path in args.paths\<close>. An exception that leaves \<open>process_path\<close> ends the loop
  and the run; the paths after it are not processed.
\<close>

fun main_loop :: "env \<Rightarrow> args \<Rightarrow> string list \<Rightarrow> unit io" where
  "main_loop env a [] = io_ret ()"
| "main_loop env a (path # rest) = io_bind (process_path env a path) (\<lambda>u. main_loop env a rest)"

definition main :: "env \<Rightarrow> args \<Rightarrow> unit io" where
  "main env a = main_loop env a (arg_paths a)"

section \<open>Notions of the specification\<close>

subsection \<open>Size Accumulator\<close>

text \<open>
  The non-directory entries that the walk of \<open>get_size\<close> lists, in the order it sizes
  them; of a list of entries, the sizes of those that can be stat'ed and the error texts
  of those that cannot.
\<close>

definition walked_files :: "string \<Rightarrow> node \<Rightarrow> entry list" where
  "walked_files path n = concat (map (\<lambda>item. snd (snd item)) (os_walk path n))"

fun sized :: "entry list \<Rightarrow> int list" where
  "sized [] = []"
| "sized (f # filenames) =
     (case os_path_getsize (snd f) of Inr k \<Rightarrow> k # sized filenames | Inl e \<Rightarrow> sized filenames)"

fun unsized :: "entry list \<Rightarrow> string list" where
  "unsized [] = []"
| "unsized (f # filenames) =
     (case os_path_getsize (snd f) of Inr k \<Rightarrow> unsized filenames | Inl e \<Rightarrow> e # unsized filenames)"

text \<open>
  The total as the specification words it: the stat-reported sizes of the regular files
  below a directory, those below a directory that cannot be listed included, with
  nothing for a directory, a symbolic link or a special file.
\<close>

fun regular_total :: "node \<Rightarrow> int"
  and regular_total_entries :: "entry list \<Rightarrow> int" where
  "regular_total (Reg st r) = (case st of Inl e \<Rightarrow> 0 | Inr s \<Rightarrow> st_size s)"
| "regular_total (Dir st es) = regular_total_entries es"
| "regular_total (Missing e) = 0"
| "regular_total (Special st r) = 0"
| "regular_total (DirDenied st e hidden) = regular_total_entries hidden"
| "regular_total (Symlink target n) = 0"
| "regular_total_entries [] = 0"
| "regular_total_entries (e # es) = regular_total (snd e) + regular_total_entries es"

text \<open>
  The total with symbolic links to files followed: an entry that is not a directory adds
  the size that \<open>os.stat\<close>, which follows links, reports for it (nothing when it cannot
  be stat'ed); a directory adds what its entries add; a directory that cannot be listed
  adds nothing, whatever it holds, and so does a symbolic link to a directory.
\<close>

fun followed_total :: "node \<Rightarrow> int"
  and followed_total_entries :: "entry list \<Rightarrow> int" where
  "followed_total (Reg st r) = (case st of Inl e \<Rightarrow> 0 | Inr s \<Rightarrow> st_size s)"
| "followed_total (Dir st es) = followed_total_entries es"
| "followed_total (Missing e) = 0"
| "followed_total (Special st r) = st_size st"
| "followed_total (DirDenied st e hidden) = 0"
| "followed_total (Symlink target n) =
     (if os_path_isdir n then 0 else case os_stat n of Inl e \<Rightarrow> 0 | Inr s \<Rightarrow> st_size s)"
| "followed_total_entries [] = 0"
| "followed_total_entries (e # es) = followed_total (snd e) + followed_total_entries es"

text \<open>
  A tree in which the two totals must agree: no special file, no directory that cannot be
  listed, and every symbolic link points to a directory or to a path that cannot be
  stat'ed.
\<close>

fun plain :: "node \<Rightarrow> bool"
  and plain_entries :: "entry list \<Rightarrow> bool" where
  "plain (Reg st r) = True"
| "plain (Dir st es) = plain_entries es"
| "plain (Missing e) = True"
| "plain (Special st r) = False"
| "plain (DirDenied st e hidden) = False"
| "plain (Symlink target n) = (os_path_isdir n \<or> \<not> os_path_exists n)"
| "plain_entries [] = True"
| "plain_entries (e # es) = (plain (snd e) \<and> plain_entries es)"

subsection \<open>Entry Counter\<close>

text \<open>
  The tree with every directory that cannot be opened replaced by an empty directory that
  can: what an unimpeded count would see of the accessible part. Symbolic links are left
  as they are.
\<close>

fun openable :: "node \<Rightarrow> node"
  and openable_entries :: "entry list \<Rightarrow> entry list" where
  "openable (Dir st es) = Dir st (openable_entries es)"
| "openable (DirDenied st e hidden) = Dir st []"
| "openable (Missing e) = Missing e"
| "openable (Reg st r) = Reg st r"
| "openable (Special st r) = Special st r"
| "openable (Symlink target n) = Symlink target n"
| "openable_entries [] = []"
| "openable_entries (e # es) = (fst e, openable (snd e)) # openable_entries es"

text \<open>
  One report per directory that cannot be opened, with its path, in the order of the
  count; the directories behind a symbolic link are not looked at.
\<close>

fun denied_reports :: "string \<Rightarrow> node \<Rightarrow> printed list"
  and denied_reports_entries :: "string \<Rightarrow> entry list \<Rightarrow> printed list" where
  "denied_reports path (Dir st es) = denied_reports_entries path es"
| "denied_reports path (DirDenied st e hidden) = [cannot_open path e]"
| "denied_reports path (Missing e) = []"
| "denied_reports path (Reg st r) = []"
| "denied_reports path (Special st r) = []"
| "denied_reports path (Symlink target n) = []"
| "denied_reports_entries path [] = []"
| "denied_reports_entries path (e # es) =
     denied_reports (os_path_join path (fst e)) (snd e) @ denied_reports_entries path es"

subsection \<open>Size strings\<close>

text \<open>
  What \<open>stat_size\<close> would do if it knew the decimal ladder only.
\<close>

definition decimal_size :: "string \<Rightarrow> node \<Rightarrow> string option io" where
  "decimal_size path n =
     (if \<not> os_path_exists n then ([Line ''Error: Path does not exist.''], Inr None)
      else
        io_bind (get_size path n) (\<lambda>sz.
          case calculate_size sz UNITS_1000 of
            Inl e \<Rightarrow> ([], Inl e)
          | Inr formatted \<Rightarrow> ([], Inr (Some formatted))))"

section \<open>Example file systems\<close>

definition file_stat :: "int \<Rightarrow> stat_result" where
  "file_stat sz = \<lparr>st_mode = 33188, st_ino = 7, st_uid = 0, st_gid = 0, st_size = sz,
                   st_mtime = 0, st_ctime = 31536000\<rparr>"

definition dir_stat :: stat_result where
  "dir_stat = \<lparr>st_mode = 16877, st_ino = 2, st_uid = 0, st_gid = 0, st_size = 4096,
               st_mtime = 1700000000, st_ctime = 1700000000\<rparr>"

definition plain_file :: "int \<Rightarrow> node" where
  "plain_file sz = Reg (Inr (file_stat sz)) (Lines 3)"

text \<open>
  The directory of the specification's example for the Entry Counter: two regular files,
  one subdirectory holding one file, and one symbolic link, here to that subdirectory.
\<close>

definition counted_dir :: node where
  "counted_dir =
     Dir dir_stat
       [(''one'', plain_file 10), (''two'', plain_file 20),
        (''sub'', Dir dir_stat [(''three'', plain_file 5)]),
        (''link'', Symlink ''sub'' (Dir dir_stat [(''three'', plain_file 5)]))]"

text \<open>
  A directory with one subdirectory that cannot be opened, between entries that can be
  counted; the subdirectory holds a file of 100 bytes.
\<close>

definition guarded_dir :: node where
  "guarded_dir =
     Dir dir_stat
       [(''one'', plain_file 10),
        (''secret'', DirDenied dir_stat ''[Errno 13] Permission denied'' [(''hidden'', plain_file 100)]),
        (''sub'', Dir dir_stat [(''three'', plain_file 5)]),
        (''two'', plain_file 20)]"

text \<open>
  The directory of the specification's example for the Size Accumulator, files of 10, 20
  and 30 bytes and a subdirectory with a file of 5 bytes, and next to that file one that
  vanished after being listed.
\<close>

definition sized_dir :: node where
  "sized_dir =
     Dir dir_stat
       [(''a'', plain_file 10), (''b'', plain_file 20), (''c'', plain_file 30),
        (''sub'', Dir dir_stat
           [(''gone'', Reg (Inl ''[Errno 2] No such file or directory'') (OpenFails ''[Errno 2] No such file or directory'')),
            (''d'', plain_file 5)])]"

text \<open>A directory whose only entry is a symbolic link to a regular file of 5 bytes.\<close>

definition linked_dir :: node where
  "linked_dir = Dir dir_stat [(''alias'', Symlink ''/data/file'' (plain_file 5))]"

text \<open>
  A Linux system with two files in the current directory: \<open>locked.txt\<close> can be
  stat'ed and not opened, \<open>notes.txt\<close> has three lines. Local time is UTC.
\<close>

definition two_files :: "string \<Rightarrow> node" where
  "two_files p =
     (if p = ''locked.txt'' then Reg (Inr (file_stat 12)) (OpenFails ''[Errno 13] Permission denied'')
      else if p = ''notes.txt'' then plain_file 12
      else Missing ''[Errno 2] No such file or directory'')"

definition linux_env :: env where
  "linux_env =
     \<lparr>env_fs = two_files, env_utcoffset = (\<lambda>t. 0), env_system = ''Linux'',
      env_passwd = (\<lambda>uid. if uid = 0 then Some \<lparr>pw_name = ''root'', pw_uid = 0, pw_gid = 0\<rparr> else None),
      env_group = (\<lambda>gid. if gid = 0 then Some ''root'' else None),
      env_wmi = None\<rparr>"

section \<open>Properties of the Size Formatter\<close>

lemma unit_index_exact:
  "unit_index sz base = py_trunc (log 2 (of_int sz) / log 2 (of_int base))"
  by (simp add: unit_index_def unit_index_fp_def exact_log2_def)

lemma calculate_size_exact:
  "calculate_size sz units =
     (if sz \<le> 0 then Inr ''0 B''
      else
        let base = base_of units;
            i = unit_index sz base;
            v = float_div sz (base ^ nat i)
        in case py_index units i of
             Inl e \<Rightarrow> Inl e
           | Inr u \<Rightarrow> Inr (format_1f v @ '' '' @ u))"
  by (simp add: calculate_size_def calculate_size_fp_def unit_index_def)

lemma floor_log_floorlog:
  "1 < base \<Longrightarrow> 0 < n \<Longrightarrow> floor_log base n = int (floorlog (nat base) (nat n)) - 1"
proof (induction base n rule: floor_log.induct)
  case (1 base n)
  show ?case
  proof (cases "base \<le> n")
    case True
    have pos: "0 < n div base"
      using True "1.prems" by (simp add: pos_imp_zdiv_pos_iff)
    have ih: "floor_log base (n div base) = int (floorlog (nat base) (nat (n div base))) - 1"
      using "1.IH" True "1.prems" pos by simp
    have "floorlog (nat base) (nat n) = floorlog (nat base) (nat n div nat base) + 1"
      using "1.prems" by (subst compute_floorlog) simp
    moreover have "nat n div nat base = nat (n div base)"
      using "1.prems" by (simp add: nat_div_distrib)
    ultimately show ?thesis
      using True "1.prems" ih by (subst floor_log.simps) simp
  next
    case False
    have "floorlog (nat base) (nat n) = floorlog (nat base) (nat n div nat base) + 1"
      using "1.prems" by (subst compute_floorlog) simp
    moreover have "nat n div nat base = 0"
      using False "1.prems" by simp
    ultimately have "floorlog (nat base) (nat n) = 1"
      by (simp add: floorlog_eq_zero_iff)
    then show ?thesis
      using False by (subst floor_log.simps) simp
  qed
qed

lemma unit_index_floor_log:
  assumes "0 < sz" "1 < base"
  shows "unit_index sz base = floor_log base sz"
proof -
  have s: "1 \<le> (of_int sz :: real)" using assms by simp
  have b: "1 < (of_int base :: real)" using assms by simp
  have eq: "log 2 (of_int sz) / log 2 (of_int base) = log (of_int base) (of_int sz)"
    using log_base_change [of 2 "of_int base" "of_int sz"] by simp
  have nn: "0 \<le> log (of_int base :: real) (of_int sz)"
    using s b by simp
  have "floorlog (nat base) (nat sz) = nat \<lfloor>log (real (nat base)) (real (nat sz))\<rfloor> + 1"
    using assms by (simp add: floorlog_def)
  moreover have "real (nat base) = of_int base" "real (nat sz) = of_int sz"
    using assms by simp_all
  ultimately have "unit_index sz base = int (floorlog (nat base) (nat sz)) - 1"
    using nn by (simp add: unit_index_exact py_trunc_def eq)
  then show ?thesis
    using assms by (simp add: floor_log_floorlog)
qed

lemma calculate_size_code [code]:
  "calculate_size sz units =
     (if sz \<le> 0 then Inr ''0 B''
      else
        let base = base_of units;
            i = floor_log base sz;
            v = float_div sz (base ^ nat i)
        in case py_index units i of
             Inl e \<Rightarrow> Inl e
           | Inr u \<Rightarrow> Inr (format_1f v @ '' '' @ u))"
proof (cases "sz \<le> 0")
  case True
  then show ?thesis by (simp add: calculate_size_exact)
next
  case False
  then have pos: "0 < sz" by simp
  have "1 < base_of units" by (simp add: base_of_def)
  then have a: "unit_index sz (base_of units) = floor_log (base_of units) sz"
    using pos by (simp add: unit_index_floor_log)
  show ?thesis
    using False by (simp add: calculate_size_exact Let_def a split: sum.split)
qed

lemma round_half_even_near: "\<bar>of_int (round_half_even y) - y\<bar> \<le> 1 / 2"
proof -
  have lo: "of_int \<lfloor>y\<rfloor> \<le> y" by simp
  have hi: "y < of_int \<lfloor>y\<rfloor> + 1" by linarith
  show ?thesis
    using lo hi unfolding round_half_even_def Let_def
    by (simp add: abs_le_iff)
qed

lemma format_1f_tenths:
  "\<exists>t. format_1f x = str_int (t div 10) @ ''.'' @ str_int (t mod 10) \<and> \<bar>of_int t / 10 - x\<bar> \<le> 1 / 20"
proof -
  have "\<bar>of_int (round_half_even (x * 10)) - x * 10\<bar> \<le> 1 / 2"
    by (rule round_half_even_near)
  then have "\<bar>of_int (round_half_even (x * 10)) / 10 - x\<bar> \<le> 1 / 20"
    by linarith
  then show ?thesis
    unfolding format_1f_def Let_def by blast
qed

lemma unit_index_floor:
  assumes "0 < sz" "1 < base"
  shows "unit_index sz base = \<lfloor>log (of_int base) (of_int sz)\<rfloor>"
proof -
  have s: "1 \<le> (of_int sz :: real)" using assms by simp
  have b: "1 < (of_int base :: real)" using assms by simp
  have eq: "log 2 (of_int sz) / log 2 (of_int base) = log (of_int base) (of_int sz)"
    using log_base_change [of 2 "of_int base" "of_int sz"] by simp
  have nn: "0 \<le> log (of_int base :: real) (of_int sz)"
    using s b by simp
  show ?thesis
    using nn by (simp add: unit_index_exact py_trunc_def eq)
qed

lemma floor_log_nonneg: "0 \<le> floor_log base n"
  by (induction base n rule: floor_log.induct) (subst floor_log.simps, simp)

lemma floor_log_le_iff:
  assumes "1 < base" "0 < n"
  shows "floor_log base n \<le> int k \<longleftrightarrow> n < base ^ Suc k"
proof -
  have "floor_log base n \<le> int k \<longleftrightarrow> floorlog (nat base) (nat n) \<le> Suc k"
    using assms by (simp add: floor_log_floorlog) linarith
  also have "\<dots> \<longleftrightarrow> nat n < nat base ^ Suc k"
    using assms by (auto simp: floorlog_le_iff)
  also have "\<dots> \<longleftrightarrow> n < base ^ Suc k"
  proof -
    have "int (nat base ^ Suc k) = base ^ Suc k" using assms by simp
    then show ?thesis using assms by (metis nat_less_iff nat_int order_less_imp_le zless_nat_conj)
  qed
  finally show ?thesis .
qed

lemma size_zero_or_negative: "sz \<le> 0 \<Longrightarrow> calculate_size sz units = Inr ''0 B''"
  by (simp add: calculate_size_exact)

lemma format_999_decimal: "calculate_size 999 UNITS_1000 = Inr ''999.0 B''"
  by code_simp

lemma format_1000_decimal: "calculate_size 1000 UNITS_1000 = Inr ''1.0 KB''"
  by code_simp

lemma format_1024_binary: "calculate_size 1024 UNITS_1024 = Inr ''1.0 KiB''"
  by code_simp

lemma format_1536_binary: "calculate_size 1536 UNITS_1024 = Inr ''1.5 KiB''"
  by code_simp

text \<open>
  Claim C9. The Size Formatter returns exactly \<open>0 B\<close> for every size that is zero or
  negative, whichever the unit ladder; it formats 999 and 1000 on the decimal ladder as
  \<open>999.0 B\<close> and \<open>1.0 KB\<close>, and 1024 and 1536 on the binary ladder as \<open>1.0 KiB\<close> and
  \<open>1.5 KiB\<close>; and the number it prints has one digit after the point, the tenth
  nearest to the value formatted.
\<close>

theorem calculate_size_examples:
  "(\<forall>sz units. sz \<le> 0 \<longrightarrow> calculate_size sz units = Inr ''0 B'')
   \<and> calculate_size 999 UNITS_1000 = Inr ''999.0 B''
   \<and> calculate_size 1000 UNITS_1000 = Inr ''1.0 KB''
   \<and> calculate_size 1024 UNITS_1024 = Inr ''1.0 KiB''
   \<and> calculate_size 1536 UNITS_1024 = Inr ''1.5 KiB''
   \<and> (\<forall>x. \<exists>t. format_1f x = str_int (t div 10) @ ''.'' @ str_int (t mod 10)
             \<and> \<bar>of_int t / 10 - x\<bar> \<le> 1 / 20)"
  using size_zero_or_negative format_999_decimal format_1000_decimal format_1024_binary
    format_1536_binary format_1f_tenths
  by blast

text \<open>Claim C9 at the sizes \<open>-5\<close> and 0.\<close>

theorem calculate_size_examples_witness:
  "calculate_size (- 5) UNITS_1024 = Inr ''0 B'' \<and> calculate_size 0 UNITS_1000 = Inr ''0 B''"
proof -
  have all: "\<forall>sz units. sz \<le> 0 \<longrightarrow> calculate_size sz units = Inr ''0 B''"
    using calculate_size_examples by (rule conjunct1)
  have a: "(- 5 :: int) \<le> 0" and b: "(0 :: int) \<le> 0" by simp_all
  show ?thesis using all a b by blast
qed

lemma base_of_cases:
  "units = UNITS_1000 \<or> units = UNITS_1024 \<Longrightarrow> 1 < base_of units \<and> length units = 7"
  by (auto simp: base_of_def UNITS_1000_def UNITS_1024_def)

lemma py_index_in_range: "0 \<le> i \<Longrightarrow> i < int (length xs) \<Longrightarrow> py_index xs i = Inr (xs ! nat i)"
  by (simp add: py_index_def)

lemma py_index_beyond: "int (length xs) \<le> i \<Longrightarrow> py_index xs i = Inl IndexError"
  by (simp add: py_index_def)

text \<open>
  On the exact machine the index is the floor of the logarithm, within the ladder exactly
  below the seventh power of the base.
\<close>

lemma exact_machine_index:
  assumes "0 < sz" and "units = UNITS_1000 \<or> units = UNITS_1024"
  shows "unit_index sz (base_of units) = \<lfloor>log (of_int (base_of units)) (of_int sz)\<rfloor>
       \<and> (unit_index sz (base_of units) \<le> int (length units) - 1 \<longleftrightarrow> sz < base_of units ^ 7)
       \<and> (sz < base_of units ^ 7 \<longrightarrow> (\<exists>formatted. calculate_size sz units = Inr formatted))
       \<and> (base_of units ^ 7 \<le> sz \<longrightarrow> calculate_size sz units = Inl IndexError)"
proof -
  have b: "1 < base_of units" and len: "length units = 7"
    using assms(2) base_of_cases by blast+
  have fl: "unit_index sz (base_of units) = floor_log (base_of units) sz"
    using assms(1) b by (rule unit_index_floor_log)
  have nn: "0 \<le> unit_index sz (base_of units)"
    unfolding fl by (rule floor_log_nonneg)
  have iff: "unit_index sz (base_of units) \<le> 6 \<longleftrightarrow> sz < base_of units ^ 7"
    using floor_log_le_iff [OF b assms(1), of 6] fl by simp
  have c1: "unit_index sz (base_of units) = \<lfloor>log (of_int (base_of units)) (of_int sz)\<rfloor>"
    using assms(1) b by (rule unit_index_floor)
  have c2: "unit_index sz (base_of units) \<le> int (length units) - 1 \<longleftrightarrow> sz < base_of units ^ 7"
    using iff len by simp
  have c3: "\<exists>formatted. calculate_size sz units = Inr formatted" if "sz < base_of units ^ 7"
  proof -
    have "unit_index sz (base_of units) < int (length units)"
      using that iff len by simp
    then have "py_index units (unit_index sz (base_of units))
      = Inr (units ! nat (unit_index sz (base_of units)))"
      using nn by (simp add: py_index_in_range)
    then show ?thesis
      using assms(1) by (simp add: calculate_size_exact Let_def)
  qed
  have c4: "calculate_size sz units = Inl IndexError" if "base_of units ^ 7 \<le> sz"
  proof -
    have "int (length units) \<le> unit_index sz (base_of units)"
      using that iff len by simp
    then have "py_index units (unit_index sz (base_of units)) = Inl IndexError"
      by (rule py_index_beyond)
    then show ?thesis
      using assms(1) by (simp add: calculate_size_exact Let_def)
  qed
  show ?thesis using c1 c2 c3 c4 by blast
qed

subsection \<open>The index on an accurate machine\<close>

lemma machine_eps_bounds: "0 < machine_eps" "machine_eps \<le> 1 / 10000000"
  by (simp_all add: machine_eps_def)

lemma rel_error_bounds:
  assumes "0 \<le> x" and "\<bar>y - x\<bar> \<le> machine_eps * x"
  shows "x * (9999999 / 10000000) \<le> y" and "y \<le> x * (10000001 / 10000000)"
proof -
  have "machine_eps * x \<le> (1 / 10000000) * x"
    using machine_eps_bounds(2) assms(1) by (rule mult_right_mono)
  then have "\<bar>y - x\<bar> \<le> x / 10000000"
    using assms(2) by linarith
  then show "x * (9999999 / 10000000) \<le> y" and "y \<le> x * (10000001 / 10000000)"
    by linarith+
qed

lemma fp_quotient_bounds:
  assumes L: "0 \<le> L" and B: "0 < B"
    and a: "\<bar>a - L\<bar> \<le> machine_eps * L"
    and c: "\<bar>c - B\<bar> \<le> machine_eps * B"
    and q: "\<bar>q - a / c\<bar> \<le> machine_eps * (a / c)"
  shows "L / B * (999999 / 1000000) \<le> q" and "q \<le> L / B * (1000001 / 1000000)"
proof -
  have a_lo: "L * (9999999 / 10000000) \<le> a" and a_hi: "a \<le> L * (10000001 / 10000000)"
    using rel_error_bounds [OF L a] by blast+
  have B0: "0 \<le> B" using B by simp
  have c_lo: "B * (9999999 / 10000000) \<le> c" and c_hi: "c \<le> B * (10000001 / 10000000)"
    using rel_error_bounds [OF B0 c] by blast+
  have cpos: "0 < c" using c_lo B by linarith
  have apos: "0 \<le> a" using a_lo L by linarith
  have xpos: "0 \<le> a / c" using apos cpos by simp
  have y0: "0 \<le> L * (10000001 / 10000000)" using L by simp
  have w0: "0 < B * (9999999 / 10000000)" using B by simp
  have x_hi: "a / c \<le> (L * (10000001 / 10000000)) / (B * (9999999 / 10000000))"
    using y0 a_hi w0 c_lo by (rule frac_le)
  have x_lo: "(L * (9999999 / 10000000)) / (B * (10000001 / 10000000)) \<le> a / c"
    using apos a_lo cpos c_hi by (rule frac_le)
  have r_hi: "(L * (10000001 / 10000000)) / (B * (9999999 / 10000000)) = L / B * (10000001 / 9999999)"
    by simp
  have r_lo: "(L * (9999999 / 10000000)) / (B * (10000001 / 10000000)) = L / B * (9999999 / 10000001)"
    by simp
  have rpos: "0 \<le> L / B" using L B by simp
  have q_lo: "(a / c) * (9999999 / 10000000) \<le> q" and q_hi: "q \<le> (a / c) * (10000001 / 10000000)"
    using rel_error_bounds [OF xpos q] by blast+
  define r where "r = L / B"
  define x where "x = a / c"
  have x_hi': "x \<le> r * (10000001 / 9999999)" using x_hi r_hi by (simp add: r_def x_def)
  have x_lo': "r * (9999999 / 10000001) \<le> x" using x_lo r_lo by (simp add: r_def x_def)
  have q_lo': "x * (9999999 / 10000000) \<le> q" and q_hi': "q \<le> x * (10000001 / 10000000)"
    using q_lo q_hi by (simp_all add: x_def)
  have r0: "0 \<le> r" using rpos by (simp add: r_def)
  have "r * (999999 / 1000000) \<le> q"
    using x_lo' q_lo' r0 by linarith
  then show "L / B * (999999 / 1000000) \<le> q" by (simp add: r_def)
  have "q \<le> r * (1000001 / 1000000)"
    using x_hi' q_hi' r0 by linarith
  then show "q \<le> L / B * (1000001 / 1000000)" by (simp add: r_def)
qed

lemma base_of_range:
  "units = UNITS_1000 \<or> units = UNITS_1024 \<Longrightarrow> 1000 \<le> base_of units \<and> base_of units \<le> 1024"
  by (auto simp: base_of_def UNITS_1000_def UNITS_1024_def)

lemma log2_base_range:
  assumes "1000 \<le> b" and "b \<le> (1024::int)"
  shows "9 \<le> log 2 (of_int b)" and "log 2 (of_int b) \<le> 10"
proof -
  have b2: "(512::real) \<le> of_int b" using assms(1) by linarith
  have "log 2 ((2::real) ^ 9) = real 9 * log 2 2"
    by (rule log_nat_power) simp
  then have l9: "log 2 (512::real) = 9" by simp
  have "log 2 (512::real) \<le> log 2 (of_int b)"
    using b2 by (intro log_mono) simp_all
  then show "9 \<le> log 2 (of_int b)" using l9 by simp
  have "log 2 ((2::real) ^ 10) = real 10 * log 2 2"
    by (rule log_nat_power) simp
  then have l10: "log 2 (1024::real) = 10" by simp
  have "(of_int b :: real) \<le> 1024" using assms(2) by simp
  then have "log 2 (of_int b) \<le> log 2 (1024::real)"
    using b2 by (intro log_mono) simp_all
  then show "log 2 (of_int b) \<le> 10" using l10 by simp
qed

text \<open>One part in ten thousand is at least a ten-thousandth of a binary order of magnitude.\<close>

lemma log2_one_plus_inverse:
  assumes "0 < n"
  shows "1 / real n \<le> log 2 (1 + 1 / real n)"
proof -
  have n: "0 < real n" using assms by simp
  have "0 \<le> 1 / real n" using n by simp
  then have "- 1 \<le> 1 / real n" by linarith
  then have "1 + real n * (1 / real n) \<le> (1 + 1 / real n) ^ n"
    by (rule Bernoulli_inequality)
  moreover have "1 + real n * (1 / real n) = 2" using n by simp
  ultimately have two: "2 \<le> (1 + 1 / real n) ^ n" by simp
  have pos: "0 < 1 + 1 / real n" using n by (simp add: add_pos_pos)
  have "log 2 2 \<le> log 2 ((1 + 1 / real n) ^ n)"
    using two by (intro log_mono) simp_all
  moreover have "log 2 ((1 + 1 / real n) ^ n) = real n * log 2 (1 + 1 / real n)"
    by (rule log_nat_power) (use pos in simp)
  ultimately have "1 \<le> real n * log 2 (1 + 1 / real n)" by simp
  then have "1 / real n \<le> (real n * log 2 (1 + 1 / real n)) / real n"
    using n by (intro divide_right_mono) simp_all
  then show ?thesis using n by simp
qed

lemma log2_margin: "1 / 10000 \<le> log 2 (10001 / 10000 :: real)"
proof -
  have "1 / real 10000 \<le> log 2 (1 + 1 / real 10000)"
    by (rule log2_one_plus_inverse) simp
  moreover have "1 + 1 / real 10000 = (10001 / 10000 :: real)" by simp
  ultimately show ?thesis by simp
qed

lemma ratio_lower:
  assumes b: "1000 \<le> b" "b \<le> (1024::int)" and s: "10001 * b ^ k \<le> 10000 * sz"
  shows "real k + 1 / 100000 \<le> log 2 (of_int sz) / log 2 (of_int b)"
proof -
  let ?B = "log 2 (of_int b :: real)"
  let ?L = "log 2 (of_int sz :: real)"
  have B: "9 \<le> ?B" "?B \<le> 10" using log2_base_range [OF b] by blast+
  have bpos: "(0::real) < of_int b" using b(1) by simp
  have "(of_int (10001 * b ^ k) :: real) \<le> of_int (10000 * sz)"
    using s by (simp only: of_int_le_iff)
  then have "(10001::real) * of_int b ^ k \<le> 10000 * of_int sz"
    by simp
  then have le: "(10001 / 10000 :: real) * of_int b ^ k \<le> of_int sz" by simp
  have pos: "(0::real) < 10001 / 10000 * of_int b ^ k" using bpos by simp
  have e1: "log 2 (10001 / 10000 * of_int b ^ k) \<le> ?L"
    using pos le by (intro log_mono) simp_all
  have "log 2 (10001 / 10000 * of_int b ^ k) = log 2 (10001 / 10000) + log 2 (of_int b ^ k)"
    using bpos by (intro log_mult_pos) simp_all
  moreover have "log 2 (of_int b ^ k) = real k * ?B"
    by (rule log_nat_power) (use bpos in simp)
  ultimately have e2: "log 2 (10001 / 10000 * of_int b ^ k) = log 2 (10001 / 10000) + real k * ?B"
    by simp
  have L: "1 / 10000 + real k * ?B \<le> ?L"
    using e1 log2_margin unfolding e2 by linarith
  have Bpos: "0 < ?B" using B(1) by linarith
  have "(1 / 10000 + real k * ?B) / ?B \<le> ?L / ?B"
    using L Bpos by (intro divide_right_mono) simp_all
  moreover have "(1 / 10000 + real k * ?B) / ?B = real k + (1 / 10000) / ?B"
    using Bpos by (simp add: field_simps)
  moreover have "(1 / 10000) / 10 \<le> (1 / 10000) / ?B"
    using B Bpos by (intro divide_left_mono) simp_all
  ultimately show ?thesis by linarith
qed

lemma ratio_upper:
  assumes b: "1000 \<le> b" "b \<le> (1024::int)" and p: "0 < sz" and s: "10001 * sz \<le> 10000 * b ^ Suc k"
  shows "log 2 (of_int sz) / log 2 (of_int b) \<le> real k + 1 - 1 / 100000"
proof -
  let ?B = "log 2 (of_int b :: real)"
  let ?L = "log 2 (of_int sz :: real)"
  have B: "9 \<le> ?B" "?B \<le> 10" using log2_base_range [OF b] by blast+
  have bpos: "(0::real) < of_int b" using b(1) by simp
  have spos: "(0::real) < of_int sz" using p by simp
  have "(of_int (10001 * sz) :: real) \<le> of_int (10000 * b ^ Suc k)"
    using s by (simp only: of_int_le_iff)
  then have "(10001::real) * of_int sz \<le> 10000 * of_int b ^ Suc k"
    by simp
  then have le: "(10001 / 10000 :: real) * of_int sz \<le> of_int b ^ Suc k" by simp
  have e1: "log 2 (10001 / 10000 * of_int sz) \<le> log 2 (of_int b ^ Suc k)"
    using spos le by (intro log_mono) simp_all
  have e2: "log 2 (10001 / 10000 * of_int sz) = log 2 (10001 / 10000) + ?L"
    using spos by (intro log_mult_pos) simp_all
  have "log 2 (of_int b ^ Suc k) = real (Suc k) * ?B"
    by (rule log_nat_power) (use bpos in simp)
  then have e3: "log 2 (of_int b ^ Suc k) = (real k + 1) * ?B"
    by (simp add: add.commute)
  have L: "1 / 10000 + ?L \<le> (real k + 1) * ?B"
    using e1 log2_margin unfolding e2 e3 by linarith
  have Bpos: "0 < ?B" using B(1) by linarith
  have "(1 / 10000 + ?L) / ?B \<le> ((real k + 1) * ?B) / ?B"
    using L Bpos by (intro divide_right_mono) simp_all
  moreover have "(1 / 10000 + ?L) / ?B = ?L / ?B + (1 / 10000) / ?B"
    by (simp add: add_divide_distrib)
  moreover have "((real k + 1) * ?B) / ?B = real k + 1"
    using Bpos by simp
  moreover have "(1 / 10000) / 10 \<le> (1 / 10000) / ?B"
    using B Bpos by (intro divide_left_mono) simp_all
  ultimately show ?thesis by linarith
qed

lemma lg_operand:
  assumes A: "log2_accurate lg" and p: "0 < sz"
  shows "\<bar>lg sz - log 2 (of_int sz)\<bar> \<le> machine_eps * log 2 (of_int sz)"
    and "lg sz = 0 \<or> 1 / 2 \<le> lg sz"
proof -
  let ?L = "log 2 (of_int sz :: real)"
  have "(1::real) \<le> of_int sz" using p by simp
  then have L: "0 \<le> ?L" by simp
  show a: "\<bar>lg sz - ?L\<bar> \<le> machine_eps * ?L"
    using A p L by (simp add: log2_accurate_def)
  show "lg sz = 0 \<or> 1 / 2 \<le> lg sz"
  proof (cases "sz = 1")
    case True
    then have "\<bar>lg sz - 0\<bar> \<le> machine_eps * 0" using a by simp
    then show ?thesis by simp
  next
    case False
    then have "(2::real) \<le> of_int sz" using p by linarith
    then have "log 2 (2::real) \<le> ?L" by (intro log_mono) simp_all
    then have L1: "1 \<le> ?L" by simp
    have "?L * (9999999 / 10000000) \<le> lg sz"
      using rel_error_bounds(1) [OF L a] .
    then show ?thesis using L1 by linarith
  qed
qed

lemma fp_index_bounds:
  assumes A: "log2_accurate lg" and D: "division_rounded fdiv"
    and p: "0 < sz" and b: "1000 \<le> b" "b \<le> (1024::int)"
  shows "log 2 (of_int sz) / log 2 (of_int b) * (999999 / 1000000) \<le> fdiv (lg sz) (lg b)"
    and "fdiv (lg sz) (lg b) \<le> log 2 (of_int sz) / log 2 (of_int b) * (1000001 / 1000000)"
proof -
  let ?B = "log 2 (of_int b :: real)"
  let ?L = "log 2 (of_int sz :: real)"
  have B: "9 \<le> ?B" "?B \<le> 10" using log2_base_range [OF b] by blast+
  have Bpos: "0 < ?B" and B0: "0 \<le> ?B" using B(1) by linarith+
  have "(1::real) \<le> of_int sz" using p by simp
  then have L: "0 \<le> ?L" by simp
  have bp: "0 < b" using b(1) by simp
  have a: "\<bar>lg sz - ?L\<bar> \<le> machine_eps * ?L"
    and x: "lg sz = 0 \<or> 1 / 2 \<le> lg sz"
    using lg_operand [OF A p] by blast+
  have c: "\<bar>lg b - ?B\<bar> \<le> machine_eps * ?B"
    using lg_operand(1) [OF A bp] .
  have "?B * (9999999 / 10000000) \<le> lg b" and "lg b \<le> ?B * (10000001 / 10000000)"
    using rel_error_bounds [OF B0 c] by blast+
  then have y: "1 \<le> lg b \<and> lg b \<le> 1024" using B by linarith
  have q: "\<bar>fdiv (lg sz) (lg b) - lg sz / lg b\<bar> \<le> machine_eps * (lg sz / lg b)"
    using D x y by (simp add: division_rounded_def)
  show "?L / ?B * (999999 / 1000000) \<le> fdiv (lg sz) (lg b)"
    using L Bpos a c q by (rule fp_quotient_bounds(1))
  show "fdiv (lg sz) (lg b) \<le> ?L / ?B * (1000001 / 1000000)"
    using L Bpos a c q by (rule fp_quotient_bounds(2))
qed


lemma fp_index_exact:
  assumes M: "log2_accurate lg" "division_rounded fdiv" and p: "0 < sz"
    and b: "1000 \<le> b" "b \<le> (1024::int)"
    and k: "k \<le> 6" and lo: "10001 * b ^ k \<le> 10000 * sz" and hi: "10001 * sz \<le> 10000 * b ^ Suc k"
  shows "unit_index_fp lg fdiv sz b = int k" and "\<lfloor>log (of_int b) (of_int sz)\<rfloor> = int k"
proof -
  define r where "r = log 2 (of_int sz) / log 2 (of_int b :: real)"
  define q where "q = fdiv (lg sz) (lg b)"
  have r_lo: "real k + 1 / 100000 \<le> r"
    unfolding r_def using b lo by (rule ratio_lower)
  have r_hi: "r \<le> real k + 1 - 1 / 100000"
    unfolding r_def using b p hi by (rule ratio_upper)
  have q_lo: "r * (999999 / 1000000) \<le> q" and q_hi: "q \<le> r * (1000001 / 1000000)"
    unfolding r_def q_def using fp_index_bounds [OF M p b] by blast+
  have kr: "real k \<le> 6" using k by simp
  have k0: "0 \<le> real k" by simp
  have q1: "real k \<le> q" using r_lo q_lo kr k0 by linarith
  have q2: "q < real k + 1" using r_hi q_hi kr k0 by linarith
  have "\<lfloor>q\<rfloor> = int k"
    using q1 q2 by (intro floor_unique) simp_all
  moreover have "0 \<le> q" using q1 k0 by linarith
  ultimately show "unit_index_fp lg fdiv sz b = int k"
    by (simp add: unit_index_fp_def py_trunc_def q_def)
  have "log (of_int b) (of_int sz) = r"
    unfolding r_def using log_base_change [of 2 "of_int b" "of_int sz"] by simp
  moreover have "\<lfloor>r\<rfloor> = int k"
    using r_lo r_hi by (intro floor_unique) simp_all
  ultimately show "\<lfloor>log (of_int b) (of_int sz)\<rfloor> = int k" by simp
qed






text \<open>
  Away from the powers of the base, the function on an accurate machine is the function
  on the exact machine.
\<close>

lemma accurate_machine_agrees:
  assumes M: "log2_accurate lg" "division_rounded fdiv" and p: "0 < sz"
    and u: "units = UNITS_1000 \<or> units = UNITS_1024"
    and k: "k \<le> 6" "10001 * base_of units ^ k \<le> 10000 * sz"
      "10001 * sz \<le> 10000 * base_of units ^ Suc k"
  shows "calculate_size_fp lg fdiv sz units = calculate_size sz units"
proof -
  have b: "1000 \<le> base_of units" "base_of units \<le> 1024"
    using u base_of_range by blast+
  have i: "unit_index_fp lg fdiv sz (base_of units) = int k"
    and f: "\<lfloor>log (of_int (base_of units)) (of_int sz)\<rfloor> = int k"
    using fp_index_exact [OF M p b k] by blast+
  have b1: "1 < base_of units" using b(1) by simp
  have "unit_index sz (base_of units) = int k"
    using unit_index_floor [OF p b1] f by simp
  then show ?thesis
    using i by (simp add: calculate_size_fp_def calculate_size_exact)
qed


section \<open>Properties of the Size Accumulator\<close>

lemma on_stream_stdout: "on_stream Stdout out = out"
proof (induction out)
  case Nil
  then show ?case by (simp add: on_stream_def)
next
  case (Cons p out)
  then show ?case by (cases p) (simp_all add: on_stream_def)
qed

lemma on_stream_stderr: "on_stream Stderr out = []"
proof (induction out)
  case Nil
  then show ?case by (simp add: on_stream_def)
next
  case (Cons p out)
  then show ?case by (cases p) (simp_all add: on_stream_def)
qed

lemma add_sizes_acc:
  "add_sizes fs acc
   = (fst acc @ map (\<lambda>e. Line (''Error: '' @ e)) (unsized fs), snd acc + sum_list (sized fs))"
proof (induction fs arbitrary: acc)
  case Nil
  then show ?case by simp
next
  case (Cons f fs)
  show ?case
    by (cases "os_path_getsize (snd f)") (simp_all add: Cons.IH)
qed

lemma sized_append: "sized (xs @ ys) = sized xs @ sized ys"
  by (induction xs) (simp_all split: sum.split)

lemma unsized_append: "unsized (xs @ ys) = unsized xs @ unsized ys"
  by (induction xs) (simp_all split: sum.split)

lemma fold_add_sizes:
  "fold (\<lambda>item acc. add_sizes (snd (snd item)) acc) items acc
   = (fst acc @ map (\<lambda>e. Line (''Error: '' @ e)) (unsized (concat (map (\<lambda>item. snd (snd item)) items))),
      snd acc + sum_list (sized (concat (map (\<lambda>item. snd (snd item)) items))))"
proof (induction items arbitrary: acc)
  case Nil
  then show ?case by simp
next
  case (Cons item items)
  let ?step = "\<lambda>item acc. add_sizes (snd (snd item)) acc"
  have "fold ?step (item # items) acc = fold ?step items (add_sizes (snd (snd item)) acc)"
    by simp
  also have "\<dots> = (fst (add_sizes (snd (snd item)) acc)
        @ map (\<lambda>e. Line (''Error: '' @ e)) (unsized (concat (map (\<lambda>item. snd (snd item)) items))),
      snd (add_sizes (snd (snd item)) acc)
        + sum_list (sized (concat (map (\<lambda>item. snd (snd item)) items))))"
    by (rule Cons.IH)
  also have "\<dots> = (fst acc @ map (\<lambda>e. Line (''Error: '' @ e))
          (unsized (concat (map (\<lambda>item. snd (snd item)) (item # items)))),
      snd acc + sum_list (sized (concat (map (\<lambda>item. snd (snd item)) (item # items)))))"
    by (simp add: add_sizes_acc sized_append unsized_append)
  finally show ?case .
qed

lemma get_size_walk:
  "\<not> os_path_isfile n \<Longrightarrow>
   get_size path n
   = (map (\<lambda>e. Line (''Error: '' @ e)) (unsized (walked_files path n)),
      Inr (sum_list (sized (walked_files path n))))"
  by (simp add: get_size_def Let_def fold_add_sizes walked_files_def)

lemma isdir_not_isfile: "os_path_isdir n \<Longrightarrow> \<not> os_path_isfile n"
  by (auto simp: os_path_isdir_def os_path_isfile_def split: node.splits sum.splits)


lemma is_dir_simps [simp]:
  "is_dir (Dir st es)" "is_dir (DirDenied st e hidden)" "\<not> is_dir (Reg s r)" "\<not> is_dir (Special st r)"
  "\<not> is_dir (Missing e)" "is_dir (Symlink target n) = os_path_isdir n"
  by (simp_all add: is_dir_def os_path_isdir_def)

lemma os_path_islink_simps [simp]:
  "\<not> os_path_islink (Dir st es)" "\<not> os_path_islink (DirDenied st e hidden)" "\<not> os_path_islink (Reg s r)"
  "\<not> os_path_islink (Special st r)" "\<not> os_path_islink (Missing e)" "os_path_islink (Symlink target n)"
  by (simp_all add: os_path_islink_def)

lemma nondir_size:
  "\<not> is_dir n \<Longrightarrow> (case os_path_getsize n of Inr k \<Rightarrow> k | Inl e \<Rightarrow> 0) = followed_total n"
  by (cases n) (auto simp: os_path_getsize_def split: sum.splits)

lemma sized_cons_sum:
  "sum_list (sized (f # fs)) = (case os_path_getsize (snd f) of Inr k \<Rightarrow> k | Inl e \<Rightarrow> 0) + sum_list (sized fs)"
  by (simp split: sum.split)

lemma walk_total:
  "(is_dir n \<and> \<not> os_path_islink n \<longrightarrow>
      sum_list (sized (concat (map (\<lambda>item. snd (snd item)) (os_walk dirpath n)))) = followed_total n)"
  "sum_list (sized (concat (map (\<lambda>item. snd (snd item)) (walk_subdirs dirpath es))))
     + sum_list (sized (filter (\<lambda>e. \<not> is_dir (snd e)) es)) = followed_total_entries es"
proof (induction dirpath n and dirpath es rule: os_walk_walk_subdirs.induct)
  case (1 dirpath st es)
  then show ?case by (simp add: sized_append)
next
  case (8 dirpath e es)
  show ?case
  proof (cases "is_dir (snd e)")
    case True
    show ?thesis
    proof (cases "os_path_islink (snd e)")
      case link: True
      then obtain target m where m: "snd e = Symlink target m"
        by (cases "snd e") simp_all
      with True have "followed_total (snd e) = 0" by simp
      then show ?thesis using True link "8.IH"(2) by simp
    next
      case False
      then show ?thesis using True "8.IH" by (simp add: sized_append)
    qed
  next
    case False
    then show ?thesis
      using "8.IH"(2) nondir_size [OF False] by (simp add: sized_cons_sum del: sized.simps)
  qed
qed simp_all

lemma os_walk_resolve: "os_walk path n = os_walk path (resolve n)"
  by (induction n rule: resolve.induct) simp_all

lemma resolve_not_link: "\<not> os_path_islink (resolve n)"
  by (induction n rule: resolve.induct) simp_all

lemma resolve_idem: "resolve (resolve n) = resolve n"
  by (induction n rule: resolve.induct) simp_all

lemma os_path_isdir_resolve: "os_path_isdir (resolve n) = os_path_isdir n"
  by (simp add: os_path_isdir_def resolve_idem)

lemma get_size_followed:
  assumes "os_path_isdir n"
  shows "snd (get_size path n) = Inr (followed_total (resolve n))"
proof -
  have "is_dir (resolve n) \<and> \<not> os_path_islink (resolve n)"
    using assms by (simp add: is_dir_def os_path_isdir_resolve resolve_not_link)
  then have "sum_list (sized (walked_files path (resolve n))) = followed_total (resolve n)"
    using walk_total(1) [of "resolve n" path] by (simp add: walked_files_def)
  moreover have "walked_files path (resolve n) = walked_files path n"
    using os_walk_resolve [of path n] by (simp add: walked_files_def)
  ultimately show ?thesis
    using assms by (simp add: get_size_walk isdir_not_isfile)
qed

lemma plain_totals:
  "\<not> os_path_islink n \<Longrightarrow> plain n \<Longrightarrow> followed_total n = regular_total n"
  "plain_entries es \<Longrightarrow> followed_total_entries es = regular_total_entries es"
proof (induction n and es rule: followed_total_followed_total_entries.induct)
  case (8 e es)
  show ?case
  proof (cases "snd e")
    case (Symlink target m)
    with "8.prems" have "os_path_isdir m \<or> \<not> os_path_exists m" by simp
    then have "followed_total (snd e) = 0"
      using Symlink by (auto simp: os_path_exists_def split: sum.splits)
    then show ?thesis using "8.prems" "8.IH"(2) Symlink by simp
  qed (use "8.prems" "8.IH" in simp_all)
qed simp_all

lemma is_symlink_simps [simp]:
  "\<not> is_symlink (Dir st es)" "\<not> is_symlink (DirDenied st e hidden)" "\<not> is_symlink (Reg s r)"
  "\<not> is_symlink (Special st r)" "\<not> is_symlink (Missing e)" "is_symlink (Symlink target n)"
  by (simp_all add: is_symlink_def)

lemma is_file_simps [simp]:
  "\<not> is_file (Dir st es)" "\<not> is_file (DirDenied st e hidden)" "is_file (Reg s r)"
  "\<not> is_file (Special st r)" "\<not> is_file (Missing e)"
  by (simp_all add: is_file_def)

lemma openable_kind [simp]:
  "is_symlink (openable n) = is_symlink n"
  "is_dir (openable n) = is_dir n"
  "is_file (openable n) = is_file n"
  by (cases n; simp add: is_file_def)+

lemma denied_reports_nondir: "\<not> is_dir n \<or> is_symlink n \<Longrightarrow> denied_reports path n = []"
  by (cases n) auto

lemma count_openable:
  "(is_dir n \<and> \<not> is_symlink n \<longrightarrow>
      count_file path n counts = (denied_reports path n, snd (count_file path (openable n) counts))
      \<and> fst (count_file path (openable n) counts) = [])"
  "count_entries path es counts
     = (denied_reports_entries path es, snd (count_entries path (openable_entries es) counts))
   \<and> fst (count_entries path (openable_entries es) counts) = []"
proof (induction path n counts and path es counts rule: count_file_count_entries.induct)
  case (8 path entry es counts)
  show ?case
  proof (cases "is_symlink (snd entry)")
    case True
    then obtain target m where m: "snd entry = Symlink target m"
      by (cases "snd entry") simp_all
    show ?thesis using True "8.IH"(1) m by simp
  next
    case nolink: False
    show ?thesis
    proof (cases "is_dir (snd entry)")
      case True
      let ?c = "counts\<lparr>dirs := dirs counts + 1\<rparr>"
      let ?p = "os_path_join path (fst entry)"
      have sub: "count_file ?p (snd entry) ?c
           = (denied_reports ?p (snd entry), snd (count_file ?p (openable (snd entry)) ?c))"
        and sub0: "fst (count_file ?p (openable (snd entry)) ?c) = []"
        using "8.IH"(2) [OF nolink True] nolink True by simp_all
      have same: "snd (count_file ?p (openable (snd entry)) ?c) = snd (count_file ?p (snd entry) ?c)"
        using sub by simp
      have rest: "count_entries path es (snd (count_file ?p (snd entry) ?c))
           = (denied_reports_entries path es,
              snd (count_entries path (openable_entries es) (snd (count_file ?p (snd entry) ?c))))"
        and rest0: "fst (count_entries path (openable_entries es) (snd (count_file ?p (snd entry) ?c))) = []"
        using "8.IH"(3) [OF nolink True refl] by simp_all
      have subf: "fst (count_file ?p (snd entry) ?c) = denied_reports ?p (snd entry)"
        using sub by (metis fst_conv)
      have restf: "fst (count_entries path es (snd (count_file ?p (snd entry) ?c)))
           = denied_reports_entries path es"
        using rest by (metis fst_conv)
      have rests: "snd (count_entries path (openable_entries es) (snd (count_file ?p (snd entry) ?c)))
           = snd (count_entries path es (snd (count_file ?p (snd entry) ?c)))"
        using rest by (metis snd_conv)
      show ?thesis
        using nolink True subf sub0 same restf rests rest0 by (simp add: Let_def prod_eq_iff)
    next
      case nodir: False
      show ?thesis
      proof (cases "is_file (snd entry)")
        case True
        then show ?thesis
          using nolink nodir "8.IH"(4) by (simp add: denied_reports_nondir)
      next
        case False
        then show ?thesis
          using nolink nodir "8.IH"(5) by (simp add: denied_reports_nondir)
      qed
    qed
  qed
qed simp_all

text \<open>
  Claim C3, as amended. For every directory path, the Size Accumulator returns the sum of
  the sizes that \<open>os.stat\<close>, which follows symbolic links, reports for the entries
  that are not directories, in the directory and in every subdirectory that can be listed
  and is reached without passing through a symbolic link: a regular file adds its size
  and a symbolic link to a file adds the size of its target, while a directory and a
  symbolic link to a directory add nothing of their own, the linked directory is not
  entered, and a directory that cannot be listed adds nothing, whatever it holds. Where
  the tree has no special file, no symbolic link to a file and no directory that cannot
  be listed, this is the sum of the sizes of the regular files.
\<close>

theorem get_size_follows_file_links:
  assumes "os_path_isdir n"
  shows "snd (get_size path n) = Inr (followed_total (resolve n))
       \<and> (plain (resolve n) \<longrightarrow> snd (get_size path n) = Inr (regular_total (resolve n)))"
proof -
  have a: "snd (get_size path n) = Inr (followed_total (resolve n))"
    using assms by (rule get_size_followed)
  have "followed_total (resolve n) = regular_total (resolve n)" if "plain (resolve n)"
    using plain_totals(1) [OF resolve_not_link that] .
  then show ?thesis using a by simp
qed

lemma linked_dir_isdir: "os_path_isdir linked_dir"
  by (simp add: linked_dir_def os_path_isdir_def)

lemma sized_dir_isdir: "os_path_isdir sized_dir"
  by (simp add: sized_dir_def os_path_isdir_def)

text \<open>
  The amended claim C3 at a directory holding a symbolic link to a file of 5 bytes, and
  at the plain directory of the specification's example.
\<close>

theorem get_size_follows_file_links_witness:
  "snd (get_size ''d'' linked_dir) = Inr 5 \<and> snd (get_size ''d'' sized_dir) = Inr 65"
proof -
  have f: "followed_total (resolve linked_dir) = 5" by code_simp
  have p: "plain (resolve sized_dir)" by code_simp
  have r: "regular_total (resolve sized_dir) = 65" by code_simp
  have "snd (get_size ''d'' linked_dir) = Inr (followed_total (resolve linked_dir))"
    using get_size_follows_file_links [OF linked_dir_isdir, of "''d''"] by (rule conjunct1)
  then have a: "snd (get_size ''d'' linked_dir) = Inr 5"
    using f by simp
  have "snd (get_size ''d'' sized_dir) = Inr (regular_total (resolve sized_dir))"
    using get_size_follows_file_links [OF sized_dir_isdir, of "''d''"] p by blast
  then have b: "snd (get_size ''d'' sized_dir) = Inr 65"
    using r by simp
  show ?thesis using a b by (rule conjI)
qed

text \<open>
  Claim C3 as stated fails: for a directory whose only entry is a symbolic link to a
  regular file of 5 bytes, the total is 5, not the 0 that its regular files sum to.
\<close>

theorem get_size_regular_only_counterexample:
  "os_path_isdir linked_dir \<and> snd (get_size ''d'' linked_dir) = Inr 5 \<and> regular_total linked_dir = 0"
proof -
  have a: "snd (get_size ''d'' linked_dir) = Inr 5" by code_simp
  have b: "regular_total linked_dir = 0" by code_simp
  show ?thesis using linked_dir_isdir a b by blast
qed

text \<open>
  \<open>os.walk\<close> passes over a directory that cannot be listed without calling anything
  of \<open>get_size\<close>: it adds nothing and nothing is printed.
\<close>

lemma get_size_unlisted_directory:
  "get_size path (DirDenied st e hidden) = ([], Inr 0)"
  "get_size path (Dir st' [(name, DirDenied st e hidden)]) = ([], Inr 0)"
  by (simp_all add: get_size_def os_path_isfile_def)

lemma sized_unsized_length: "length (sized fs) + length (unsized fs) = length fs"
  by (induction fs) (simp_all split: sum.split)

lemma guarded_dir_isdir: "os_path_isdir guarded_dir"
  by (simp add: guarded_dir_def os_path_isdir_def)

text \<open>
  Claim C8 as stated fails: below the directory \<open>d\<close> lies a regular file of 100 bytes,
  in a subdirectory that cannot be listed. The total 35 leaves it out of the 135 bytes of
  the regular files, and nothing is printed.
\<close>

theorem get_size_silent_skip_counterexample:
  "os_path_isdir guarded_dir
   \<and> regular_total guarded_dir = 135
   \<and> get_size ''d'' guarded_dir = ([], Inr 35)"
proof -
  have a: "regular_total guarded_dir = 135" by code_simp
  have b: "get_size ''d'' guarded_dir = ([], Inr 35)" by code_simp
  show ?thesis using guarded_dir_isdir a b by blast
qed

lemma walked_files_skip_denied:
  "walked_files path (Dir st ((name, DirDenied st' e hidden) # es)) = walked_files path (Dir st es)"
  by (simp add: walked_files_def)

lemma get_size_skip_denied:
  "get_size path (Dir st ((name, DirDenied st' e hidden) # es)) = get_size path (Dir st es)"
  by (simp add: get_size_walk os_path_isfile_def walked_files_skip_denied)

text \<open>
  Claim C8, as amended. During the walk of a directory, every entry that the walk lists
  as a file is either sized or reported: the Size Accumulator prints, on standard output,
  one \<open>Error:\<close> line for each such entry whose size cannot be read, returns the sum of
  the sizes of the others, and does not raise. A subdirectory that cannot be listed is
  passed over with all that it holds, without a report: it changes neither the output nor
  the total.
\<close>

theorem get_size_skips_unsizable:
  assumes "os_path_isdir n"
  shows "get_size path n
         = (map (\<lambda>e. Line (''Error: '' @ e)) (unsized (walked_files path n)),
            Inr (sum_list (sized (walked_files path n))))
       \<and> length (sized (walked_files path n)) + length (unsized (walked_files path n))
         = length (walked_files path n)
       \<and> on_stream Stdout (fst (get_size path n)) = fst (get_size path n)
       \<and> on_stream Stderr (fst (get_size path n)) = []
       \<and> get_size path (Dir st ((name, DirDenied st' e hidden) # es)) = get_size path (Dir st es)"
  using assms
  by (simp add: get_size_walk isdir_not_isfile sized_unsized_length on_stream_stdout
      on_stream_stderr get_size_skip_denied)

text \<open>
  Claim C8 at the directory of the specification's example with a vanished file in its
  subdirectory: one report, and the total 65 of the four readable files.
\<close>

theorem get_size_skips_unsizable_witness:
  "get_size ''d'' sized_dir = ([Line ''Error: [Errno 2] No such file or directory''], Inr 65)"
proof -
  have u: "unsized (walked_files ''d'' sized_dir) = [''[Errno 2] No such file or directory'']"
    by code_simp
  have s: "sum_list (sized (walked_files ''d'' sized_dir)) = 65"
    by code_simp
  show ?thesis
    using get_size_skips_unsizable [OF sized_dir_isdir, of "''d''"] u s by simp
qed

lemma counted_dir_counts:
  "count_file ''d'' counted_dir FileCount_init = ([], \<lparr>dirs = 1, files = 3, links = 1\<rparr>)"
  by code_simp

text \<open>
  Claim C5. The Entry Counter tests an entry for being a symbolic link first: a symbolic
  link adds one to \<open>links\<close> and the count goes on with the next entry, also when the
  link points to a directory, which \<open>is_dir\<close> would accept and which is not entered;
  a directory that is no link adds one to \<open>dirs\<close>, a regular file one to \<open>files\<close>.
  The directory with two regular files, one subdirectory holding one file and one
  symbolic link yields \<open>dirs = 1\<close>, \<open>files = 3\<close>, \<open>links = 1\<close>.
\<close>

theorem symlink_counted_before_directory:
  "is_dir (Symlink target (Dir st children))
   \<and> count_entries path ((name, Symlink target n) # es) counts
     = count_entries path es (counts\<lparr>links := links counts + 1\<rparr>)
   \<and> count_file path (Dir st' [(name, Symlink target (Dir st children))]) counts
     = ([], counts\<lparr>links := links counts + 1\<rparr>)
   \<and> count_entries path [(name, Dir st [])] counts = ([], counts\<lparr>dirs := dirs counts + 1\<rparr>)
   \<and> count_entries path [(name, Reg s r)] counts = ([], counts\<lparr>files := files counts + 1\<rparr>)
   \<and> count_file ''d'' counted_dir FileCount_init = ([], \<lparr>dirs = 1, files = 3, links = 1\<rparr>)"
  using counted_dir_counts by (simp add: os_path_isdir_def Let_def)

lemma guarded_dir_counts:
  "count_file ''d'' guarded_dir FileCount_init
   = ([Line ''Cannot open directory: d/secret. Error: [Errno 13] Permission denied''],
      \<lparr>dirs = 2, files = 3, links = 0\<rparr>)"
  by code_simp

text \<open>
  Claim C6 as stated fails: the report of the directory that cannot be opened is written
  to standard output, where the rendered line follows it, and nothing is written to a
  diagnostic stream.
\<close>

theorem count_file_report_on_stdout_counterexample:
  "fst (count_file ''d'' guarded_dir FileCount_init)
     = [Line ''Cannot open directory: d/secret. Error: [Errno 13] Permission denied'']
   \<and> on_stream Stderr (fst (count_file ''d'' guarded_dir FileCount_init)) = []
   \<and> on_stream Stdout (fst (count_file ''d'' guarded_dir FileCount_init))
     = [Line ''Cannot open directory: d/secret. Error: [Errno 13] Permission denied'']"
  using guarded_dir_counts by (simp add: on_stream_stdout on_stream_stderr)

text \<open>
  Claim C6, as amended. When a directory below the one counted cannot be opened, the
  Entry Counter prints one report for it on standard output and goes on: the counts are
  those of the count, with nothing to report, of the tree in which each such directory is
  an empty one, so every accessible entry is counted once, the directory that cannot be
  opened counts as one directory, and nothing is raised. A directory that cannot be
  opened itself yields the report and unchanged counts.
\<close>

theorem count_file_skips_denied_subtree:
  "count_file path (Dir st es) counts
     = (denied_reports path (Dir st es), snd (count_file path (openable (Dir st es)) counts))
   \<and> fst (count_file path (openable (Dir st es)) counts) = []
   \<and> count_file path (DirDenied st e hidden) counts = ([cannot_open path e], counts)
   \<and> count_file ''d'' guarded_dir FileCount_init
     = ([Line ''Cannot open directory: d/secret. Error: [Errno 13] Permission denied''],
        \<lparr>dirs = 2, files = 3, links = 0\<rparr>)
   \<and> on_stream Stdout (fst (count_file path n counts)) = fst (count_file path n counts)
   \<and> on_stream Stderr (fst (count_file path n counts)) = []"
  using count_openable(1) [of "Dir st es" path counts] guarded_dir_counts
  by (simp add: on_stream_stdout on_stream_stderr)

lemma notes_short:
  "fst (short_mod linux_env ''notes.txt'')
   = [Line ([CHR 0x1B] @ ''[34m-rw-r--r--, 12.0 B,                       3 lines, 01 01-1971 00:00''
            @ [CHR 0x09] @ ''notes.txt'' @ [CHR 0x1B] @ ''[0m'')]"
  by code_simp

lemma notes_long:
  "fst (long_mod linux_env ''notes.txt'')
   = [Table headers
        [[CStr ''notes.txt'', CStr ''3 lines'', CStr ''644'', CStr ''root / root'', CStr ''0 / 0'',
          CStr ''12.0 B'', CStr ''Thu Jan  1 00:00:00 1970'', CInt 7, CNone]]]"
  by code_simp

lemma main_single:
  "main env (parse_args has_s has_l [path])
   = io_bind (except_OSError (if has_l \<and> \<not> has_s then long_mod env path else short_mod env path)
                (\<lambda>e. py_print (''Error: '' @ e)))
       (\<lambda>u. io_ret ())"
  by (simp add: main_def parse_args_def process_path_def)

lemma main_step:
  "main env (parse_args has_s has_l (path # rest))
   = io_bind (except_OSError (if has_l \<and> \<not> has_s then long_mod env path else short_mod env path)
                (\<lambda>e. py_print (''Error: '' @ e)))
       (\<lambda>u. main_loop env (parse_args has_s has_l (path # rest)) rest)"
  by (simp add: main_def parse_args_def process_path_def)

lemma main_default:
  "main env (parse_args has_s has_l [])
   = io_bind (except_OSError (if has_l \<and> \<not> has_s then long_mod env ''.'' else short_mod env ''.'')
                (\<lambda>e. py_print (''Error: '' @ e)))
       (\<lambda>u. io_ret ())"
  by (simp add: main_def parse_args_def process_path_def)

lemma run_long: "main linux_env (parse_args False True [''notes.txt''])
   = ([Table headers
        [[CStr ''notes.txt'', CStr ''3 lines'', CStr ''644'', CStr ''root / root'', CStr ''0 / 0'',
          CStr ''12.0 B'', CStr ''Thu Jan  1 00:00:00 1970'', CInt 7, CNone]]], Inr ())"
  by code_simp

lemma run_both: "main linux_env (parse_args True True [''notes.txt''])
   = ([Line ([CHR 0x1B] @ ''[34m-rw-r--r--, 12.0 B,                       3 lines, 01 01-1971 00:00''
            @ [CHR 0x09] @ ''notes.txt'' @ [CHR 0x1B] @ ''[0m'')], Inr ())"
  by code_simp

lemma run_two: "main linux_env (parse_args False False [''missing.txt'', ''notes.txt''])
   = ([Line ''Error: [Errno 2] No such file or directory'',
       Line ([CHR 0x1B] @ ''[34m-rw-r--r--, 12.0 B,                       3 lines, 01 01-1971 00:00''
            @ [CHR 0x09] @ ''notes.txt'' @ [CHR 0x1B] @ ''[0m'')], Inr ())"
  by code_simp

text \<open>
  Claim C7. The CLI Driver renders every path of the list, in order, in compact mode when
  neither flag is given, in long mode when \<open>-l\<close> is given without \<open>-s\<close>, and in compact
  mode when \<open>-s\<close> is given, with or without \<open>-l\<close>; the two modes differ. With no path on
  the command line the list of paths is the current directory alone, otherwise the paths
  given.
\<close>

theorem mode_selection:
  "process_path env (parse_args False False positional) path
     = except_OSError (short_mod env path) (\<lambda>e. py_print (''Error: '' @ e))
   \<and> process_path env (parse_args False True positional) path
     = except_OSError (long_mod env path) (\<lambda>e. py_print (''Error: '' @ e))
   \<and> process_path env (parse_args True False positional) path
     = except_OSError (short_mod env path) (\<lambda>e. py_print (''Error: '' @ e))
   \<and> process_path env (parse_args True True positional) path
     = except_OSError (short_mod env path) (\<lambda>e. py_print (''Error: '' @ e))
   \<and> arg_paths (parse_args has_s has_l []) = [''.'']
   \<and> arg_paths (parse_args has_s has_l (p # ps)) = p # ps
   \<and> main env (parse_args has_s has_l []) = main_loop env (parse_args has_s has_l []) [''.'']
   \<and> fst (short_mod linux_env ''notes.txt'') \<noteq> fst (long_mod linux_env ''notes.txt'')
   \<and> main env (parse_args has_s has_l [])
     = io_bind (except_OSError
                  (if has_l \<and> \<not> has_s then long_mod env ''.'' else short_mod env ''.'')
                  (\<lambda>e. py_print (''Error: '' @ e)))
         (\<lambda>u. io_ret ())
   \<and> main env (parse_args has_s has_l [path])
     = io_bind (except_OSError
                  (if has_l \<and> \<not> has_s then long_mod env path else short_mod env path)
                  (\<lambda>e. py_print (''Error: '' @ e)))
         (\<lambda>u. io_ret ())
   \<and> main env (parse_args has_s has_l (path # rest))
     = io_bind (except_OSError
                  (if has_l \<and> \<not> has_s then long_mod env path else short_mod env path)
                  (\<lambda>e. py_print (''Error: '' @ e)))
         (\<lambda>u. main_loop env (parse_args has_s has_l (path # rest)) rest)
   \<and> main_loop env a (path # rest)
     = io_bind (process_path env a path) (\<lambda>u. main_loop env a rest)
   \<and> main linux_env (parse_args False True [''notes.txt''])
     = ([Table headers
          [[CStr ''notes.txt'', CStr ''3 lines'', CStr ''644'', CStr ''root / root'',
            CStr ''0 / 0'', CStr ''12.0 B'', CStr ''Thu Jan  1 00:00:00 1970'', CInt 7, CNone]]],
        Inr ())
   \<and> main linux_env (parse_args True True [''notes.txt''])
     = ([Line ([CHR 0x1B] @ ''[34m-rw-r--r--, 12.0 B,                       3 lines, 01 01-1971 00:00''
              @ [CHR 0x09] @ ''notes.txt'' @ [CHR 0x1B] @ ''[0m'')], Inr ())
   \<and> main linux_env (parse_args False False [''missing.txt'', ''notes.txt''])
     = ([Line ''Error: [Errno 2] No such file or directory'',
         Line ([CHR 0x1B] @ ''[34m-rw-r--r--, 12.0 B,                       3 lines, 01 01-1971 00:00''
              @ [CHR 0x09] @ ''notes.txt'' @ [CHR 0x1B] @ ''[0m'')], Inr ())"
proof -
  have c1: "process_path env (parse_args False False positional) path
     = except_OSError (short_mod env path) (\<lambda>e. py_print (''Error: '' @ e))"
    by (simp add: process_path_def parse_args_def)
  have c2: "process_path env (parse_args False True positional) path
     = except_OSError (long_mod env path) (\<lambda>e. py_print (''Error: '' @ e))"
    by (simp add: process_path_def parse_args_def)
  have c3: "process_path env (parse_args True False positional) path
     = except_OSError (short_mod env path) (\<lambda>e. py_print (''Error: '' @ e))"
    by (simp add: process_path_def parse_args_def)
  have c4: "process_path env (parse_args True True positional) path
     = except_OSError (short_mod env path) (\<lambda>e. py_print (''Error: '' @ e))"
    by (simp add: process_path_def parse_args_def)
  have c5: "arg_paths (parse_args has_s has_l []) = [''.'']"
    by (simp add: parse_args_def)
  have c6: "arg_paths (parse_args has_s has_l (p # ps)) = p # ps"
    by (simp add: parse_args_def)
  have c7: "main env (parse_args has_s has_l []) = main_loop env (parse_args has_s has_l []) [''.'']"
    by (simp add: main_def parse_args_def)
  have c8: "fst (short_mod linux_env ''notes.txt'') \<noteq> fst (long_mod linux_env ''notes.txt'')"
    by (simp add: notes_short notes_long)
  have c12: "main_loop env a (path # rest)
     = io_bind (process_path env a path) (\<lambda>u. main_loop env a rest)"
    by simp
  show ?thesis
    by (intro conjI)
      (rule c1, rule c2, rule c3, rule c4, rule c5, rule c6, rule c7, rule c8,
       rule main_default, rule main_single, rule main_step, rule c12,
       rule run_long, rule run_both, rule run_two)
qed

lemma locked_run:
  "main linux_env (parse_args False False [''locked.txt'', ''notes.txt''])
   = ([Line ''Could not open file locked.txt. Error: [Errno 13] Permission denied''], Inl TypeError)"
  by code_simp

text \<open>
  Claim C1 fails on the code. In compact mode, for a regular file that can be stat'ed
  and not opened, \<open>line_count\<close> reports the error and returns \<open>None\<close>; formatting
  \<open>None\<close> with \<open>{lines:>23d}\<close> raises \<open>TypeError\<close>, which no handler catches. The run
  ends there, and the next path, which alone is rendered, is never processed.
\<close>

theorem main_stops_at_unreadable_file:
  "arg_paths (parse_args False False [''locked.txt'', ''notes.txt'']) = [''locked.txt'', ''notes.txt'']
   \<and> main linux_env (parse_args False False [''locked.txt'', ''notes.txt''])
     = ([Line ''Could not open file locked.txt. Error: [Errno 13] Permission denied''], Inl TypeError)
   \<and> fst (main linux_env (parse_args False False [''notes.txt'']))
     = [Line ([CHR 0x1B] @ ''[34m-rw-r--r--, 12.0 B,                       3 lines, 01 01-1971 00:00''
            @ [CHR 0x09] @ ''notes.txt'' @ [CHR 0x1B] @ ''[0m'')]"
proof -
  have a: "fst (main linux_env (parse_args False False [''notes.txt'']))
     = [Line ([CHR 0x1B] @ ''[34m-rw-r--r--, 12.0 B,                       3 lines, 01 01-1971 00:00''
            @ [CHR 0x09] @ ''notes.txt'' @ [CHR 0x1B] @ ''[0m'')]"
    by code_simp
  show ?thesis using a locked_run by (simp add: parse_args_def)
qed

lemma ctime_formatted: "print_mod_time linux_env (file_stat 12) = ''01 01-1971 00:00''"
  by code_simp

lemma mtime_formatted:
  "strftime_dmYHM (time_localtime linux_env (st_mtime (file_stat 12))) = ''01 01-1970 00:00''"
  by code_simp

text \<open>
  Claim C4 fails on the code. \<open>print_mod_time\<close> formats \<open>st_ctime\<close>, not the
  modification time \<open>st_mtime\<close>: for a file modified at the epoch whose status changed
  a year later, compact mode prints the date of 1971.
\<close>

theorem print_mod_time_reads_ctime:
  "print_mod_time env stats = strftime_dmYHM (time_localtime env (st_ctime stats))
   \<and> st_mtime (file_stat 12) = 0 \<and> st_ctime (file_stat 12) = 31536000
   \<and> strftime_dmYHM (time_localtime linux_env (st_mtime (file_stat 12))) = ''01 01-1970 00:00''
   \<and> print_mod_time linux_env (file_stat 12) = ''01 01-1971 00:00''
   \<and> fst (short_mod linux_env ''notes.txt'')
     = [Line ([CHR 0x1B] @ ''[34m-rw-r--r--, 12.0 B,                       3 lines, 01 01-1971 00:00''
            @ [CHR 0x09] @ ''notes.txt'' @ [CHR 0x1B] @ ''[0m'')]"
  using ctime_formatted mtime_formatted notes_short
  by (simp add: print_mod_time_def file_stat_def)

lemma stat_size_default: "stat_size path n default_multiplier = decimal_size path n"
  by (simp add: stat_size_def decimal_size_def default_multiplier_def io_bind_def py_print_def
      io_ret_def io_raise_def Let_def split: sum.split)

lemma py_index_member: "py_index xs i = Inr x \<Longrightarrow> x \<in> set xs"
  by (auto simp: py_index_def split: if_splits)

lemma calculate_size_shape:
  assumes "calculate_size sz units = Inr formatted"
  shows "formatted = ''0 B'' \<or> (\<exists>digits u. u \<in> set units \<and> formatted = digits @ '' '' @ u)"
proof (cases "sz \<le> 0")
  case True
  then show ?thesis using assms by (simp add: calculate_size_exact)
next
  case False
  then obtain u where u: "py_index units (unit_index sz (base_of units)) = Inr u"
    and f: "formatted = format_1f (float_div sz (base_of units ^ nat (unit_index sz (base_of units)))) @ '' '' @ u"
    using assms by (auto simp: calculate_size_exact Let_def split: sum.splits)
  have "u \<in> set units" using u by (rule py_index_member)
  then show ?thesis using f by blast
qed

lemma decimal_suffix:
  assumes "calculate_size sz UNITS_1000 = Inr formatted"
  shows "\<exists>digits u. u \<in> set UNITS_1000 \<and> formatted = digits @ '' '' @ u"
proof -
  have "''B'' \<in> set UNITS_1000" by (simp add: UNITS_1000_def)
  moreover have "''0 B'' = ''0'' @ '' '' @ ''B''" by simp
  ultimately show ?thesis using calculate_size_shape [OF assms] by blast
qed

lemma no_binary_suffix:
  assumes "u \<in> set UNITS_1000" and "b \<in> set UNITS_1024" and "b \<noteq> ''B''"
  shows "\<not> suffix ('' '' @ b) (digits @ '' '' @ u)"
  using assms by (auto simp: UNITS_1000_def UNITS_1024_def suffix_to_prefix)


text \<open>
  Claim C10. The multiplier of \<open>stat_size\<close> defaults to 1000, and both renderers call
  it with the default: the size string of either mode is the one computed on the decimal
  ladder alone. Such a string ends with a unit of the decimal ladder, never with a unit
  \<open>KiB\<close> to \<open>EiB\<close> of the binary one.
\<close>

theorem size_strings_use_decimal_ladder:
  "default_multiplier = 1000
   \<and> stat_size path n default_multiplier = decimal_size path n
   \<and> short_mod env pathname
     = except_OSError
         (io_bind (os_call (os_stat (env_fs env pathname))) (\<lambda>stats.
          io_bind (decimal_size pathname (env_fs env pathname))
            (short_render env pathname (env_fs env pathname) stats)))
         (\<lambda>e. py_print (''Error: '' @ e))
   \<and> long_mod env pathname
     = except_OSError
         (io_bind (os_call (os_stat (env_fs env pathname))) (\<lambda>stats.
          io_bind (decimal_size pathname (env_fs env pathname))
            (long_render env pathname (env_fs env pathname) stats)))
         (\<lambda>e. py_print (''Error: '' @ e))
   \<and> (calculate_size sz UNITS_1000 = Inr formatted \<longrightarrow>
        (\<exists>digits u. u \<in> set UNITS_1000 \<and> formatted = digits @ '' '' @ u)
        \<and> (\<forall>b. b \<in> set UNITS_1024 \<and> b \<noteq> ''B'' \<longrightarrow> \<not> suffix ('' '' @ b) formatted))"
proof -
  have a: "default_multiplier = 1000" by (simp add: default_multiplier_def)
  have b: "stat_size path n default_multiplier = decimal_size path n"
    by (rule stat_size_default)
  have c: "short_mod env pathname
     = except_OSError
         (io_bind (os_call (os_stat (env_fs env pathname))) (\<lambda>stats.
          io_bind (decimal_size pathname (env_fs env pathname))
            (short_render env pathname (env_fs env pathname) stats)))
         (\<lambda>e. py_print (''Error: '' @ e))"
    by (simp add: short_mod_def stat_size_default Let_def)
  have d: "long_mod env pathname
     = except_OSError
         (io_bind (os_call (os_stat (env_fs env pathname))) (\<lambda>stats.
          io_bind (decimal_size pathname (env_fs env pathname))
            (long_render env pathname (env_fs env pathname) stats)))
         (\<lambda>e. py_print (''Error: '' @ e))"
    by (simp add: long_mod_def stat_size_default Let_def)
  have e: "(\<exists>digits u. u \<in> set UNITS_1000 \<and> formatted = digits @ '' '' @ u)
        \<and> (\<forall>b. b \<in> set UNITS_1024 \<and> b \<noteq> ''B'' \<longrightarrow> \<not> suffix ('' '' @ b) formatted)"
    if h: "calculate_size sz UNITS_1000 = Inr formatted"
  proof -
    obtain digits u where u: "u \<in> set UNITS_1000" and f: "formatted = digits @ '' '' @ u"
      using decimal_suffix [OF h] by blast
    then show ?thesis using no_binary_suffix [OF u] by blast
  qed
  show ?thesis using a b c d e by blast
qed

lemma kilobyte_and_a_half: "calculate_size 1536 UNITS_1000 = Inr ''1.5 KB''"
  by code_simp

text \<open>Claim C10 at 1536 bytes.\<close>

theorem size_strings_use_decimal_ladder_witness:
  "calculate_size 1536 UNITS_1000 = Inr ''1.5 KB'' \<and> \<not> suffix '' KiB'' ''1.5 KB''"
proof -
  have m: "''KiB'' \<in> set UNITS_1024 \<and> ''KiB'' \<noteq> ''B''" by (simp add: UNITS_1024_def)
  have "\<forall>b. b \<in> set UNITS_1024 \<and> b \<noteq> ''B'' \<longrightarrow> \<not> suffix ('' '' @ b) ''1.5 KB''"
    using size_strings_use_decimal_ladder [of _ _ _ _ 1536 "''1.5 KB''"] kilobyte_and_a_half
    by blast
  then have "\<not> suffix ('' '' @ ''KiB'') ''1.5 KB''" using m by blast
  then show ?thesis using kilobyte_and_a_half by simp
qed

end
